theory Spec2Isabelle
  imports Main
begin

section \<open>Values of the host language\<close>

text \<open>
  The values that \<open>typedjson.ts\<close> encodes and restores. A finite number is modelled
  by an integer of magnitude at most \<open>2^53\<close>, which the language holds exactly and
  prints in plain decimal (fractions, larger magnitudes and the negative zero are
  outside this embedding); the three non-finite numbers are constructors of their own. Text is a list
  of 8-bit characters. A timestamp is represented by the text \<open>toISOString\<close> gives for
  it, and \<open>InvalidDate\<close> is the timestamp that has none. A pattern object is the pair of
  its \<open>source\<close> and \<open>flags\<close>. A structured error is its \<open>name\<close>, \<open>message\<close> and
  \<open>stack\<close>. An object is the list of its own enumerable properties in enumeration
  order; inherited properties are not modelled.
\<close>

datatype jsval =
    Null
  | Undefined
  | Bool bool
  | Num int
  | PosInf
  | NegInf
  | NaN
  | Str string
  | BigInt int
  | Arr "jsval list"
  | Obj "(string \<times> jsval) list"
  | Date string
  | InvalidDate
  | SetV "jsval list"
  | MapV "(string \<times> jsval) list"
  | RegExp string string
  | Err string string string

text \<open>
  What the code can throw. \<open>FormatError\<close> is the \<open>Error\<close> that \<open>applyConversion\<close>
  throws with the message \<open>Invalid regexp: ...\<close>; the others are raised by the
  language itself. \<open>Unmodelled\<close> marks a step whose behaviour this embedding does not
  describe, and \<open>OutOfFuel\<close> a traversal cut off by the bound on its nesting depth.
\<close>

datatype error =
    TypeError
  | SyntaxError
  | RangeError
  | FormatError string
  | Unmodelled
  | OutOfFuel

subsection \<open>Decimal numerals\<close>

definition digit_char :: "nat \<Rightarrow> char" where
  "digit_char d = ''0123456789'' ! d"

definition digit_val :: "char \<Rightarrow> nat option" where
  "digit_val c =
     (if (48::nat) \<le> of_char c \<and> of_char c < (58::nat) then Some (of_char c - 48) else None)"

definition is_digit :: "char \<Rightarrow> bool" where
  "is_digit c = (digit_val c \<noteq> None)"

function show_digits :: "int \<Rightarrow> string" where
  "show_digits i =
     (if i < 10 then [digit_char (nat i)]
      else show_digits (i div 10) @ [digit_char (nat (i mod 10))])"
  by pat_completeness auto
termination
  by (relation "measure nat") auto

declare show_digits.simps [simp del]

definition show_int :: "int \<Rightarrow> string" where
  "show_int i = (if i < 0 then CHR ''-'' # show_digits (- i) else show_digits i)"

definition show_nat :: "nat \<Rightarrow> string" where
  "show_nat n = show_digits (int n)"

text \<open>The integers a number of the language holds exactly.\<close>

definition safe :: "int \<Rightarrow> bool" where
  "safe i = (- 9007199254740992 \<le> i \<and> i \<le> 9007199254740992)"

fun digits_val :: "int \<Rightarrow> string \<Rightarrow> int option" where
  "digits_val acc [] = Some acc"
| "digits_val acc (c # cs) =
     (case digit_val c of None \<Rightarrow> None | Some d \<Rightarrow> digits_val (10 * acc + int d) cs)"

definition parse_digits :: "string \<Rightarrow> int option" where
  "parse_digits s = (if s = [] then None else digits_val 0 s)"

definition parse_int :: "string \<Rightarrow> int option" where
  "parse_int s =
     (case s of
        [] \<Rightarrow> None
      | c # cs \<Rightarrow>
          if c = CHR ''-'' then map_option uminus (parse_digits cs)
          else parse_digits s)"

text \<open>
  An array index is a canonical numeral (no sign, no leading zero) below \<open>2^32 - 1\<close>.
\<close>

definition array_index :: "string \<Rightarrow> nat option" where
  "array_index s =
     (case parse_digits s of
        None \<Rightarrow> None
      | Some i \<Rightarrow> if show_digits i = s \<and> i < 4294967295 then Some (nat i) else None)"

subsection \<open>Properties\<close>

definition typeof :: "jsval \<Rightarrow> string" where
  "typeof v =
     (case v of
        Undefined \<Rightarrow> ''undefined''
      | Bool _ \<Rightarrow> ''boolean''
      | Num _ \<Rightarrow> ''number''
      | PosInf \<Rightarrow> ''number''
      | NegInf \<Rightarrow> ''number''
      | NaN \<Rightarrow> ''number''
      | Str _ \<Rightarrow> ''string''
      | BigInt _ \<Rightarrow> ''bigint''
      | _ \<Rightarrow> ''object'')"

definition truthy :: "jsval \<Rightarrow> bool" where
  "truthy v =
     (case v of
        Null \<Rightarrow> False
      | Undefined \<Rightarrow> False
      | Bool b \<Rightarrow> b
      | Num n \<Rightarrow> n \<noteq> 0
      | NaN \<Rightarrow> False
      | Str s \<Rightarrow> s \<noteq> []
      | BigInt n \<Rightarrow> n \<noteq> 0
      | _ \<Rightarrow> True)"

text \<open>
  The names a value inherits from its prototype in the standard library of the
  language (ECMAScript 2023 with its annex B): those of \<open>Object.prototype\<close> for every
  value, and those of \<open>Array.prototype\<close>, \<open>String.prototype\<close> and \<open>Number.prototype\<close>
  in addition for a sequence, a text and a number.
\<close>

definition object_proto :: "string list" where
  "object_proto =
     [''constructor'', ''__proto__'', ''hasOwnProperty'', ''isPrototypeOf'',
      ''propertyIsEnumerable'', ''toLocaleString'', ''toString'', ''valueOf'',
      ''__defineGetter__'', ''__defineSetter__'', ''__lookupGetter__'', ''__lookupSetter__'']"

definition array_proto :: "string list" where
  "array_proto =
     [''at'', ''concat'', ''copyWithin'', ''entries'', ''every'', ''fill'', ''filter'', ''find'',
      ''findIndex'', ''findLast'', ''findLastIndex'', ''flat'', ''flatMap'', ''forEach'',
      ''includes'', ''indexOf'', ''join'', ''keys'', ''lastIndexOf'', ''map'', ''pop'',
      ''push'', ''reduce'', ''reduceRight'', ''reverse'', ''shift'', ''slice'', ''some'',
      ''sort'', ''splice'', ''toReversed'', ''toSorted'', ''toSpliced'', ''unshift'',
      ''values'', ''with'']"

definition string_proto :: "string list" where
  "string_proto =
     [''at'', ''charAt'', ''charCodeAt'', ''codePointAt'', ''concat'', ''endsWith'',
      ''includes'', ''indexOf'', ''isWellFormed'', ''lastIndexOf'', ''localeCompare'',
      ''match'', ''matchAll'', ''normalize'', ''padEnd'', ''padStart'', ''repeat'',
      ''replace'', ''replaceAll'', ''search'', ''slice'', ''split'', ''startsWith'',
      ''substring'', ''toLocaleLowerCase'', ''toLocaleUpperCase'', ''toLowerCase'',
      ''toUpperCase'', ''toWellFormed'', ''trim'', ''trimEnd'', ''trimStart'', ''substr'',
      ''anchor'', ''big'', ''blink'', ''bold'', ''fixed'', ''fontcolor'', ''fontsize'',
      ''italics'', ''link'', ''small'', ''strike'', ''sub'', ''sup'', ''trimLeft'',
      ''trimRight'']"

definition number_proto :: "string list" where
  "number_proto = [''toExponential'', ''toFixed'', ''toPrecision'']"

definition inherited :: "jsval \<Rightarrow> string \<Rightarrow> bool" where
  "inherited ob key =
     (key \<in> set object_proto
      \<or> (case ob of
            Arr _ \<Rightarrow> key \<in> set array_proto
          | Str _ \<Rightarrow> key \<in> set string_proto
          | Num _ \<Rightarrow> key \<in> set number_proto
          | PosInf \<Rightarrow> key \<in> set number_proto
          | NegInf \<Rightarrow> key \<in> set number_proto
          | NaN \<Rightarrow> key \<in> set number_proto
          | _ \<Rightarrow> False))"

text \<open>
  \<open>o[key]\<close> as a read. Reading a property of \<open>null\<close> or \<open>undefined\<close> throws. An
  own property reads as its value. A property that is not an own one reads as
  \<open>undefined\<close>, unless its name is inherited: an inherited property holds a function,
  which has no value in this embedding. Reads from the restored kinds (timestamps,
  collections, patterns, errors, big integers) are not modelled.
\<close>

definition absent :: "jsval \<Rightarrow> string \<Rightarrow> error + jsval" where
  "absent ob key = (if inherited ob key then Inl Unmodelled else Inr Undefined)"

definition get_prop :: "jsval \<Rightarrow> string \<Rightarrow> error + jsval" where
  "get_prop ob key =
     (case ob of
        Null \<Rightarrow> Inl TypeError
      | Undefined \<Rightarrow> Inl TypeError
      | Obj kvs \<Rightarrow> (case map_of kvs key of Some v \<Rightarrow> Inr v | None \<Rightarrow> absent ob key)
      | Arr xs \<Rightarrow>
          (case array_index key of
             Some i \<Rightarrow> if i < length xs then Inr (xs ! i) else Inr Undefined
           | None \<Rightarrow> if key = ''length'' then Inr (Num (int (length xs))) else absent ob key)
      | Str s \<Rightarrow>
          (case array_index key of
             Some i \<Rightarrow> if i < length s then Inr (Str [s ! i]) else Inr Undefined
           | None \<Rightarrow> if key = ''length'' then Inr (Num (int (length s))) else absent ob key)
      | Bool _ \<Rightarrow> absent ob key
      | Num _ \<Rightarrow> absent ob key
      | PosInf \<Rightarrow> absent ob key
      | NegInf \<Rightarrow> absent ob key
      | NaN \<Rightarrow> absent ob key
      | _ \<Rightarrow> Inl Unmodelled)"

text \<open>
  Creating or overwriting an own property of an ordinary object: an existing key keeps
  its place; a new array-index key goes among the index keys in ascending order, which
  come first; any other new key goes last.
\<close>

fun obj_insert_index :: "nat \<Rightarrow> string \<Rightarrow> jsval \<Rightarrow> (string \<times> jsval) list \<Rightarrow> (string \<times> jsval) list" where
  "obj_insert_index i k v [] = [(k, v)]"
| "obj_insert_index i k v ((k', v') # kvs) =
     (case array_index k' of
        None \<Rightarrow> (k, v) # (k', v') # kvs
      | Some j \<Rightarrow> if i < j then (k, v) # (k', v') # kvs else (k', v') # obj_insert_index i k v kvs)"

definition obj_put :: "string \<Rightarrow> jsval \<Rightarrow> (string \<times> jsval) list \<Rightarrow> (string \<times> jsval) list" where
  "obj_put k v kvs =
     (if k \<in> fst ` set kvs then map (\<lambda>(k', v'). if k' = k then (k', v) else (k', v')) kvs
      else case array_index k of
             None \<Rightarrow> kvs @ [(k, v)]
           | Some i \<Rightarrow> obj_insert_index i k v kvs)"

definition fromEntries :: "(string \<times> jsval) list \<Rightarrow> (string \<times> jsval) list" where
  "fromEntries kvs = foldl (\<lambda>acc (k, v). obj_put k v acc) [] kvs"


section \<open>The print primitive\<close>

text \<open>
  \<open>JSON.stringify(data, replacer)\<close> of the language, as the source uses it. The
  primitive reads each property of the value the replacer returned for its holder, lets
  a timestamp lower itself first (\<open>toJSON\<close>), calls the replacer with the key and that
  value, and prints what the replacer returns. The replacer is a parameter; it threads
  a state of its own through the traversal. The recursion follows the values the
  replacer returns, so it is bounded by a depth counter.
\<close>

definition hex_char :: "nat \<Rightarrow> char" where
  "hex_char d = ''0123456789abcdef'' ! d"

definition QuoteJSONChar :: "char \<Rightarrow> string" where
  "QuoteJSONChar c =
     (if c = CHR 0x08 then [CHR 0x5C, CHR ''b'']
      else if c = CHR 0x09 then [CHR 0x5C, CHR ''t'']
      else if c = CHR 0x0A then [CHR 0x5C, CHR ''n'']
      else if c = CHR 0x0C then [CHR 0x5C, CHR ''f'']
      else if c = CHR 0x0D then [CHR 0x5C, CHR ''r'']
      else if c = CHR 0x22 then [CHR 0x5C, CHR 0x22]
      else if c = CHR 0x5C then [CHR 0x5C, CHR 0x5C]
      else if (of_char c :: nat) < 32
        then [CHR 0x5C, CHR ''u'', CHR ''0'', CHR ''0'',
              hex_char ((of_char c :: nat) div 16), hex_char ((of_char c :: nat) mod 16)]
      else [c])"

definition QuoteJSONString :: "string \<Rightarrow> string" where
  "QuoteJSONString s = CHR 0x22 # concat (map QuoteJSONChar s) @ [CHR 0x22]"

fun join :: "string \<Rightarrow> string list \<Rightarrow> string" where
  "join sep [] = []"
| "join sep [x] = x"
| "join sep (x # y # ys) = x @ sep @ join sep (y # ys)"

definition toJSON :: "jsval \<Rightarrow> jsval" where
  "toJSON v = (case v of Date s \<Rightarrow> Str s | InvalidDate \<Rightarrow> Null | _ \<Rightarrow> v)"

fun SerializeJSONProperty ::
    "(string \<Rightarrow> jsval \<Rightarrow> 's \<Rightarrow> error + (jsval \<times> 's)) \<Rightarrow> nat \<Rightarrow> string \<Rightarrow> jsval \<Rightarrow> 's
      \<Rightarrow> error + (string option \<times> 's)"
  and SerializeJSONArray ::
    "(string \<Rightarrow> jsval \<Rightarrow> 's \<Rightarrow> error + (jsval \<times> 's)) \<Rightarrow> nat \<Rightarrow> nat \<Rightarrow> jsval list \<Rightarrow> 's
      \<Rightarrow> error + (string list \<times> 's)"
  and SerializeJSONObject ::
    "(string \<Rightarrow> jsval \<Rightarrow> 's \<Rightarrow> error + (jsval \<times> 's)) \<Rightarrow> nat \<Rightarrow> (string \<times> jsval) list \<Rightarrow> 's
      \<Rightarrow> error + (string list \<times> 's)"
where
  "SerializeJSONProperty rep 0 key v st = Inl OutOfFuel"
| "SerializeJSONProperty rep (Suc n) key v st =
     (case rep key (toJSON v) st of
        Inl e \<Rightarrow> Inl e
      | Inr (v', st') \<Rightarrow>
          (case v' of
             Null \<Rightarrow> Inr (Some ''null'', st')
           | Undefined \<Rightarrow> Inr (None, st')
           | Bool b \<Rightarrow> Inr (Some (if b then ''true'' else ''false''), st')
           | Num i \<Rightarrow> if safe i then Inr (Some (show_int i), st') else Inl Unmodelled
           | PosInf \<Rightarrow> Inr (Some ''null'', st')
           | NegInf \<Rightarrow> Inr (Some ''null'', st')
           | NaN \<Rightarrow> Inr (Some ''null'', st')
           | Str s \<Rightarrow> Inr (Some (QuoteJSONString s), st')
           | BigInt i \<Rightarrow> Inl TypeError
           | Arr xs \<Rightarrow>
               (case SerializeJSONArray rep n 0 xs st' of
                  Inl e \<Rightarrow> Inl e
                | Inr (parts, st'') \<Rightarrow> Inr (Some (''['' @ join '','' parts @ '']''), st''))
           | Obj kvs \<Rightarrow>
               (case SerializeJSONObject rep n kvs st' of
                  Inl e \<Rightarrow> Inl e
                | Inr (parts, st'') \<Rightarrow> Inr (Some (''{'' @ join '','' parts @ ''}''), st''))
           | _ \<Rightarrow> Inr (Some ''{}'', st')))"
| "SerializeJSONArray rep n i [] st = Inr ([], st)"
| "SerializeJSONArray rep n i (x # xs) st =
     (case SerializeJSONProperty rep n (show_nat i) x st of
        Inl e \<Rightarrow> Inl e
      | Inr (t, st') \<Rightarrow>
          (case SerializeJSONArray rep n (Suc i) xs st' of
             Inl e \<Rightarrow> Inl e
           | Inr (parts, st'') \<Rightarrow>
               Inr ((case t of None \<Rightarrow> ''null'' | Some s \<Rightarrow> s) # parts, st'')))"
| "SerializeJSONObject rep n [] st = Inr ([], st)"
| "SerializeJSONObject rep n ((k, x) # kvs) st =
     (case SerializeJSONProperty rep n k x st of
        Inl e \<Rightarrow> Inl e
      | Inr (t, st') \<Rightarrow>
          (case SerializeJSONObject rep n kvs st' of
             Inl e \<Rightarrow> Inl e
           | Inr (parts, st'') \<Rightarrow>
               Inr ((case t of None \<Rightarrow> [] | Some s \<Rightarrow> [QuoteJSONString k @ '':'' @ s]) @ parts,
                    st'')))"

text \<open>The number of nodes of a value bounds the depth of every traversal of it.\<close>

fun nodes :: "jsval \<Rightarrow> nat" where
  "nodes (Arr xs) = Suc (sum_list (map nodes xs))"
| "nodes (SetV xs) = Suc (sum_list (map nodes xs))"
| "nodes (Obj kvs) = Suc (sum_list (map (\<lambda>kv. nodes (snd kv)) kvs))"
| "nodes (MapV kvs) = Suc (sum_list (map (\<lambda>kv. nodes (snd kv)) kvs))"
| "nodes (Err n m s) = Suc (Suc (Suc (Suc 0)))"
| "nodes v = Suc 0"

text \<open>\<open>JSON.stringify(data)\<close> with no replacer.\<close>

definition no_replacer :: "string \<Rightarrow> jsval \<Rightarrow> unit \<Rightarrow> error + (jsval \<times> unit)" where
  "no_replacer key v u = Inr (v, u)"

definition JSON_stringify :: "jsval \<Rightarrow> error + string option" where
  "JSON_stringify v =
     (case SerializeJSONProperty no_replacer (Suc (nodes v)) [] v () of
        Inl e \<Rightarrow> Inl e
      | Inr (t, u) \<Rightarrow> Inr t)"

section \<open>serialize\<close>

record entry =
  entry_type :: string
  entry_value :: jsval
  count :: nat
  iteration :: nat

text \<open>
  The three variables the replacer closes over. \<open>stack\<close> and \<open>keys\<close> grow and shrink at
  the end, as the arrays of the source do; \<open>meta_map\<close> is the \<open>Map\<close> the source calls \<open>meta\<close>, in insertion order.
\<close>

record enc_state =
  stack :: "entry list"
  keys :: "string list"
  meta_map :: "(string \<times> string) list"

definition meta_set :: "string \<Rightarrow> string \<Rightarrow> (string \<times> string) list \<Rightarrow> (string \<times> string) list" where
  "meta_set k t m =
     (if k \<in> fst ` set m then map (\<lambda>(k', t'). if k' = k then (k', t) else (k', t')) m
      else m @ [(k, t)])"

text \<open>\<open>keys[keys.length - 1]\<close> inside a template: an empty array gives the text \<open>undefined\<close>.\<close>

definition top_key :: "string list \<Rightarrow> string" where
  "top_key ks = (if ks = [] then ''undefined'' else last ks)"

text \<open>
  Lines 29 to 41: the entry the visit is charged to. The top entry is charged; if that
  exhausts it, it is popped (with its prefix, for an \<open>object\<close> entry) and the new top is
  charged instead, whatever its own count. With nothing left under the popped entry the
  charge is made on \<open>undefined\<close> and throws.
\<close>

definition charge :: "entry \<Rightarrow> entry" where
  "charge e = e\<lparr>iteration := iteration e + 1\<rparr>"

definition owning_entry :: "enc_state \<Rightarrow> error + (entry option \<times> enc_state)" where
  "owning_entry st =
     (if stack st = [] then Inr (None, st)
      else
        let e = charge (last (stack st)) in
        if iteration e > count e then
          let ks = (if entry_type e = ''object'' then butlast (keys st) else keys st);
              stk = butlast (stack st)
          in if stk = [] then Inl TypeError
             else Inr (Some (charge (last stk)),
                       st\<lparr>stack := butlast stk @ [charge (last stk)], keys := ks\<rparr>)
        else Inr (Some e, st\<lparr>stack := butlast (stack st) @ [e]\<rparr>))"

text \<open>
  Lines 48 to 74: the tag, the stand-in and the child count of an object, and the entry
  the error branch pushes on its own.
\<close>

definition classify :: "jsval \<Rightarrow> error + (string \<times> jsval \<times> nat \<times> entry list)" where
  "classify v =
     (case v of
        Date s \<Rightarrow> Inr (''date'', Str s, 0, [])
      | InvalidDate \<Rightarrow> Inl RangeError
      | SetV xs \<Rightarrow> Inr (''set'', Arr xs, length xs, [])
      | MapV kvs \<Rightarrow> Inr (''map'', Obj (fromEntries kvs), length (fromEntries kvs), [])
      | Arr xs \<Rightarrow> Inr (''undefined'', Arr xs, length xs, [])
      | RegExp src fl \<Rightarrow> Inr (''regexp'', Str (''/'' @ src @ ''/'' @ fl), 0, [])
      | Err n m s \<Rightarrow>
          (let ob = Obj [(''name'', Str n), (''message'', Str m), (''stack'', Str s)]
           in Inr (''error'', ob, 0,
                   [\<lparr>entry_type = ''object'', entry_value = ob, count = 3, iteration = 0\<rparr>]))
      | Obj kvs \<Rightarrow> Inr (''object'', Obj kvs, length kvs, [])
      | _ \<Rightarrow> Inr (''undefined'', v, 0, []))"

definition replacer :: "string \<Rightarrow> jsval \<Rightarrow> enc_state \<Rightarrow> error + (jsval \<times> enc_state)" where
  "replacer key value0 st0 =
     (case owning_entry st0 of
        Inl e \<Rightarrow> Inl e
      | Inr (ent, st) \<Rightarrow>
          (case (case ent of None \<Rightarrow> Inr value0 | Some e \<Rightarrow> get_prop (entry_value e) key) of
             Inl e \<Rightarrow> Inl e
           | Inr v \<Rightarrow>
               let metaKey = top_key (keys st) @ key in
               if typeof v = ''object'' \<and> v \<noteq> Null then
                 (case classify v of
                    Inl e \<Rightarrow> Inl e
                  | Inr (t, v', cnt, pushed) \<Rightarrow>
                      let st1 = st\<lparr>stack := stack st @ pushed\<rparr>;
                          st2 = (if t \<noteq> ''undefined'' \<and> t \<noteq> ''object''
                                 then st1\<lparr>meta_map := meta_set metaKey t (meta_map st1)\<rparr> else st1)
                      in if cnt \<noteq> 0 then
                           let st3 = st2\<lparr>stack := stack st2 @
                                        [\<lparr>entry_type = t, entry_value = v', count = cnt,
                                          iteration = 0\<rparr>]\<rparr>
                           in Inr (v', if key \<noteq> [] \<and> t = ''object''
                                       then st3\<lparr>keys := keys st3 @ [metaKey @ ''.'']\<rparr>
                                       else st3)
                         else Inr (v', st2))
               else
                 (case v of
                    BigInt i \<Rightarrow> Inr (Str (show_int i), st\<lparr>meta_map := meta_set metaKey ''bigint'' (meta_map st)\<rparr>)
                  | PosInf \<Rightarrow> Inr (Str ''Infinity'', st\<lparr>meta_map := meta_set metaKey ''infinity'' (meta_map st)\<rparr>)
                  | NegInf \<Rightarrow> Inr (Str ''-Infinity'', st\<lparr>meta_map := meta_set metaKey ''-infinity'' (meta_map st)\<rparr>)
                  | NaN \<Rightarrow> Inr (Str ''NaN'', st\<lparr>meta_map := meta_set metaKey ''nan'' (meta_map st)\<rparr>)
                  | Undefined \<Rightarrow> Inr (Null, st\<lparr>meta_map := meta_set metaKey ''undefined'' (meta_map st)\<rparr>)
                  | _ \<Rightarrow> Inr (v, st))))"

record typed_json =
  json :: jsval
  meta :: jsval

definition serialize :: "jsval \<Rightarrow> error + typed_json" where
  "serialize data =
     (if data = Null then Inr \<lparr>json = Str ''null'', meta = Undefined\<rparr>
      else if data = Undefined then Inr \<lparr>json = Undefined, meta = Undefined\<rparr>
      else
        case SerializeJSONProperty replacer (Suc (nodes data)) [] data
               \<lparr>stack = [], keys = [[]], meta_map = []\<rparr> of
          Inl e \<Rightarrow> Inl e
        | Inr (t, st) \<Rightarrow>
            Inr \<lparr>json = (case t of None \<Rightarrow> Undefined | Some s \<Rightarrow> Str s),
                 meta = (if meta_map st = [] then Undefined
                            else Obj (fromEntries (map (\<lambda>(k, t). (k, Str t)) (meta_map st))))\<rparr>)"


section \<open>The parse primitive\<close>

text \<open>
  \<open>JSON.parse(text)\<close> of the language: a recursive-descent reading of the grammar,
  bounded by the length of the text. The reading fails in three ways: the text is not in
  the grammar (\<open>BadSyntax\<close>, the \<open>SyntaxError\<close> of the language); it holds a number
  with a fraction or an exponent, of a magnitude above \<open>2^53\<close> or a negative zero, or a
  \<open>\u\<close> escape above \<open>00ff\<close>, which have no value in this embedding (\<open>NoValue\<close>); or
  the bound is used up (\<open>Cutoff\<close>). An object is
  built property by property, so a repeated key keeps its first place and its last
  value.
\<close>

datatype parse_failure = BadSyntax | NoValue | Cutoff

definition error_of :: "parse_failure \<Rightarrow> error" where
  "error_of f = (case f of BadSyntax \<Rightarrow> SyntaxError | NoValue \<Rightarrow> Unmodelled | Cutoff \<Rightarrow> OutOfFuel)"

definition is_ws :: "char \<Rightarrow> bool" where
  "is_ws c = (c = CHR '' '' \<or> c = CHR 0x09 \<or> c = CHR 0x0A \<or> c = CHR 0x0D)"

fun skip_ws :: "string \<Rightarrow> string" where
  "skip_ws [] = []"
| "skip_ws (c # cs) = (if is_ws c then skip_ws cs else c # cs)"

definition hex_val :: "char \<Rightarrow> nat option" where
  "hex_val c =
     (case digit_val c of
        Some d \<Rightarrow> Some d
      | None \<Rightarrow>
          if c = CHR ''a'' \<or> c = CHR ''A'' then Some 10
          else if c = CHR ''b'' \<or> c = CHR ''B'' then Some 11
          else if c = CHR ''c'' \<or> c = CHR ''C'' then Some 12
          else if c = CHR ''d'' \<or> c = CHR ''D'' then Some 13
          else if c = CHR ''e'' \<or> c = CHR ''E'' then Some 14
          else if c = CHR ''f'' \<or> c = CHR ''F'' then Some 15
          else None)"

definition unescape :: "char \<Rightarrow> char option" where
  "unescape c =
     (if c = CHR 0x22 then Some (CHR 0x22)
      else if c = CHR 0x5C then Some (CHR 0x5C)
      else if c = CHR ''/'' then Some (CHR ''/'')
      else if c = CHR ''b'' then Some (CHR 0x08)
      else if c = CHR ''f'' then Some (CHR 0x0C)
      else if c = CHR ''n'' then Some (CHR 0x0A)
      else if c = CHR ''r'' then Some (CHR 0x0D)
      else if c = CHR ''t'' then Some (CHR 0x09)
      else None)"

definition hex4 :: "char \<Rightarrow> char \<Rightarrow> char \<Rightarrow> char \<Rightarrow> nat option" where
  "hex4 a b c d =
     (case (hex_val a, hex_val b, hex_val c, hex_val d) of
        (Some w, Some x, Some y, Some z) \<Rightarrow> Some (((w * 16 + x) * 16 + y) * 16 + z)
      | _ \<Rightarrow> None)"

text \<open>The characters of a string literal after its opening quote, up to the closing one.\<close>

fun parse_chars :: "string \<Rightarrow> parse_failure + (string \<times> string)" where
  "parse_chars [] = Inl BadSyntax"
| "parse_chars (c # cs) =
     (if c = CHR 0x22 then Inr ([], cs)
      else if c = CHR 0x5C then
        (case cs of
           [] \<Rightarrow> Inl BadSyntax
         | e # cs1 \<Rightarrow>
             if e = CHR ''u'' then
               (case cs1 of
                  h1 # h2 # h3 # h4 # cs2 \<Rightarrow>
                    (case hex4 h1 h2 h3 h4 of
                       None \<Rightarrow> Inl BadSyntax
                     | Some n \<Rightarrow>
                         if n < 256 then
                           (case parse_chars cs2 of
                              Inl err \<Rightarrow> Inl err
                            | Inr (s, r) \<Rightarrow> Inr (char_of n # s, r))
                         else Inl NoValue)
                | _ \<Rightarrow> Inl BadSyntax)
             else
               (case unescape e of
                  None \<Rightarrow> Inl BadSyntax
                | Some ch \<Rightarrow>
                    (case parse_chars cs1 of
                       Inl err \<Rightarrow> Inl err
                     | Inr (s, r) \<Rightarrow> Inr (ch # s, r))))
      else if (of_char c :: nat) < 32 then Inl BadSyntax
      else
        (case parse_chars cs of
           Inl err \<Rightarrow> Inl err
         | Inr (s, r) \<Rightarrow> Inr (c # s, r)))"

definition parse_number :: "string \<Rightarrow> parse_failure + (jsval \<times> string)" where
  "parse_number s =
     (let neg = (take 1 s = ''-'');
          s1 = (if neg then drop 1 s else s);
          ds = takeWhile is_digit s1;
          r = dropWhile is_digit s1
      in if ds = [] then Inl BadSyntax
         else if take 1 ds = ''0'' \<and> length ds > 1 then Inl BadSyntax
         else if take 1 r = ''.'' \<or> take 1 r = ''e'' \<or> take 1 r = ''E'' then Inl NoValue
         else case parse_digits ds of
                None \<Rightarrow> Inl BadSyntax
              | Some i \<Rightarrow>
                  if 9007199254740992 < i \<or> (neg \<and> i = 0) then Inl NoValue
                  else Inr (Num (if neg then - i else i), r))"

fun parse_value :: "nat \<Rightarrow> string \<Rightarrow> parse_failure + (jsval \<times> string)"
  and parse_elements :: "nat \<Rightarrow> string \<Rightarrow> parse_failure + (jsval list \<times> string)"
  and parse_members :: "nat \<Rightarrow> string \<Rightarrow> parse_failure + ((string \<times> jsval) list \<times> string)"
where
  "parse_value 0 s = Inl Cutoff"
| "parse_value (Suc n) s =
     (case skip_ws s of
        [] \<Rightarrow> Inl BadSyntax
      | c # cs \<Rightarrow>
          if c = CHR ''{'' then
            (if take 1 (skip_ws cs) = ''}'' then Inr (Obj [], drop 1 (skip_ws cs))
             else case parse_members n cs of
                    Inl e \<Rightarrow> Inl e
                  | Inr (kvs, r) \<Rightarrow> Inr (Obj (fromEntries kvs), r))
          else if c = CHR ''['' then
            (if take 1 (skip_ws cs) = '']'' then Inr (Arr [], drop 1 (skip_ws cs))
             else case parse_elements n cs of
                    Inl e \<Rightarrow> Inl e
                  | Inr (xs, r) \<Rightarrow> Inr (Arr xs, r))
          else if c = CHR 0x22 then
            (case parse_chars cs of
               Inl e \<Rightarrow> Inl e
             | Inr (str, r) \<Rightarrow> Inr (Str str, r))
          else if c = CHR ''-'' \<or> is_digit c then parse_number (c # cs)
          else if take 4 (c # cs) = ''true'' then Inr (Bool True, drop 4 (c # cs))
          else if take 5 (c # cs) = ''false'' then Inr (Bool False, drop 5 (c # cs))
          else if take 4 (c # cs) = ''null'' then Inr (Null, drop 4 (c # cs))
          else Inl BadSyntax)"
| "parse_elements 0 s = Inl Cutoff"
| "parse_elements (Suc n) s =
     (case parse_value n s of
        Inl e \<Rightarrow> Inl e
      | Inr (v, r) \<Rightarrow>
          (case skip_ws r of
             [] \<Rightarrow> Inl BadSyntax
           | c # cs \<Rightarrow>
               if c = CHR '','' then
                 (case parse_elements n cs of
                    Inl e \<Rightarrow> Inl e
                  | Inr (vs, r') \<Rightarrow> Inr (v # vs, r'))
               else if c = CHR '']'' then Inr ([v], cs)
               else Inl BadSyntax))"
| "parse_members 0 s = Inl Cutoff"
| "parse_members (Suc n) s =
     (case skip_ws s of
        [] \<Rightarrow> Inl BadSyntax
      | q # s1 \<Rightarrow>
          if q \<noteq> CHR 0x22 then Inl BadSyntax
          else
            (case parse_chars s1 of
               Inl e \<Rightarrow> Inl e
             | Inr (k, s2) \<Rightarrow>
                 (case skip_ws s2 of
                    [] \<Rightarrow> Inl BadSyntax
                  | col # s3 \<Rightarrow>
                      if col \<noteq> CHR '':'' then Inl BadSyntax
                      else
                        (case parse_value n s3 of
                           Inl e \<Rightarrow> Inl e
                         | Inr (v, r) \<Rightarrow>
                             (case skip_ws r of
                                [] \<Rightarrow> Inl BadSyntax
                              | c # cs \<Rightarrow>
                                  if c = CHR '','' then
                                    (case parse_members n cs of
                                       Inl e \<Rightarrow> Inl e
                                     | Inr (kvs, r') \<Rightarrow> Inr ((k, v) # kvs, r'))
                                  else if c = CHR ''}'' then Inr ([(k, v)], cs)
                                  else Inl BadSyntax)))))"

definition JSON_parse :: "string \<Rightarrow> error + jsval" where
  "JSON_parse s =
     (case parse_value (Suc (length s)) s of
        Inl f \<Rightarrow> Inl (error_of f)
      | Inr (v, r) \<Rightarrow> if skip_ws r = [] then Inr v else Inl SyntaxError)"


section \<open>deserialize\<close>

text \<open>
  \<open>o[key] = v\<close> as a write. The source is a module, hence strict code: writing a
  property of a primitive throws. An array is written inside its bounds or at its end;
  other writes to an array, the write of \<open>__proto__\<close> to an object that has no such
  own property (it goes to the inherited setter) and writes to the restored kinds are
  not modelled.
\<close>

definition set_prop :: "jsval \<Rightarrow> string \<Rightarrow> jsval \<Rightarrow> error + jsval" where
  "set_prop ob key v =
     (case ob of
        Obj kvs \<Rightarrow>
          if key = ''__proto__'' \<and> key \<notin> fst ` set kvs then Inl Unmodelled
          else Inr (Obj (obj_put key v kvs))
      | Arr xs \<Rightarrow>
          (case array_index key of
             Some i \<Rightarrow>
               if i < length xs then Inr (Arr (xs[i := v]))
               else if i = length xs then Inr (Arr (xs @ [v]))
               else Inl Unmodelled
           | None \<Rightarrow> Inl Unmodelled)
      | Null \<Rightarrow> Inl TypeError
      | Undefined \<Rightarrow> Inl TypeError
      | Bool _ \<Rightarrow> Inl TypeError
      | Num _ \<Rightarrow> Inl TypeError
      | PosInf \<Rightarrow> Inl TypeError
      | NegInf \<Rightarrow> Inl TypeError
      | NaN \<Rightarrow> Inl TypeError
      | Str _ \<Rightarrow> Inl TypeError
      | _ \<Rightarrow> Inl Unmodelled)"

text \<open>\<open>key.split('.')\<close>.\<close>

fun split :: "char \<Rightarrow> string \<Rightarrow> string list" where
  "split sep [] = [[]]"
| "split sep (c # cs) =
     (if c = sep then [] # split sep cs
      else case split sep cs of
             [] \<Rightarrow> [[c]]
           | p # ps \<Rightarrow> (c # p) # ps)"

subsection \<open>The constructors the restoration calls\<close>

text \<open>
  The shape \<open>YYYY-MM-DDTHH:mm:ss.sssZ\<close> of the text \<open>toISOString\<close> gives for a
  timestamp of the years 0 to 9999. \<open>new Date\<close> of such a text is the timestamp with
  that text; other arguments of \<open>new Date\<close> are modelled only where noted.
\<close>

definition days_in_month :: "int \<Rightarrow> int \<Rightarrow> int" where
  "days_in_month y m =
     (if m = 2 then (if y mod 4 = 0 \<and> (y mod 100 \<noteq> 0 \<or> y mod 400 = 0) then 29 else 28)
      else if m = 4 \<or> m = 6 \<or> m = 9 \<or> m = 11 then 30 else 31)"

definition field :: "nat \<Rightarrow> nat \<Rightarrow> string \<Rightarrow> int option" where
  "field off len s = parse_digits (take len (drop off s))"

definition iso_utc :: "string \<Rightarrow> bool" where
  "iso_utc s =
     (length s = 24 \<and> s ! 4 = CHR ''-'' \<and> s ! 7 = CHR ''-'' \<and> s ! 10 = CHR ''T''
      \<and> s ! 13 = CHR '':'' \<and> s ! 16 = CHR '':'' \<and> s ! 19 = CHR ''.'' \<and> s ! 23 = CHR ''Z''
      \<and> (case (field 0 4 s, field 5 2 s, field 8 2 s, field 11 2 s, field 14 2 s,
                field 17 2 s, field 20 3 s) of
            (Some y, Some mo, Some d, Some h, Some mi, Some se, Some ms) \<Rightarrow>
              1 \<le> mo \<and> mo \<le> 12 \<and> 1 \<le> d \<and> d \<le> days_in_month y mo
              \<and> h < 24 \<and> mi < 60 \<and> se < 60
          | _ \<Rightarrow> False))"

definition new_Date :: "jsval \<Rightarrow> error + jsval" where
  "new_Date v =
     (case v of
        Str s \<Rightarrow> if iso_utc s then Inr (Date s) else Inl Unmodelled
      | Undefined \<Rightarrow> Inr InvalidDate
      | _ \<Rightarrow> Inl Unmodelled)"

text \<open>
  \<open>new Set(iterable)\<close> keeps the first of equal elements; primitives are equal by
  value, objects (here always distinct freshly parsed ones) only to themselves.
\<close>

definition is_primitive :: "jsval \<Rightarrow> bool" where
  "is_primitive v =
     (case v of
        Null \<Rightarrow> True | Undefined \<Rightarrow> True | Bool _ \<Rightarrow> True | Num _ \<Rightarrow> True | PosInf \<Rightarrow> True
      | NegInf \<Rightarrow> True | NaN \<Rightarrow> True | Str _ \<Rightarrow> True | BigInt _ \<Rightarrow> True | _ \<Rightarrow> False)"

definition set_add :: "jsval list \<Rightarrow> jsval \<Rightarrow> jsval list" where
  "set_add acc x = (if is_primitive x \<and> x \<in> set acc then acc else acc @ [x])"

definition new_Set :: "jsval \<Rightarrow> error + jsval" where
  "new_Set v =
     (case v of
        Arr xs \<Rightarrow> Inr (SetV (foldl set_add [] xs))
      | Undefined \<Rightarrow> Inr (SetV [])
      | Null \<Rightarrow> Inr (SetV [])
      | Str s \<Rightarrow> Inr (SetV (foldl set_add [] (map (\<lambda>c. Str [c]) s)))
      | Obj _ \<Rightarrow> Inl TypeError
      | Bool _ \<Rightarrow> Inl TypeError
      | Num _ \<Rightarrow> Inl TypeError
      | PosInf \<Rightarrow> Inl TypeError
      | NegInf \<Rightarrow> Inl TypeError
      | NaN \<Rightarrow> Inl TypeError
      | _ \<Rightarrow> Inl Unmodelled)"

text \<open>\<open>new Map(Object.entries(value))\<close>.\<close>

definition new_Map_entries :: "jsval \<Rightarrow> error + jsval" where
  "new_Map_entries v =
     (case v of
        Obj kvs \<Rightarrow> Inr (MapV kvs)
      | Arr xs \<Rightarrow> Inr (MapV (map (\<lambda>i. (show_nat i, xs ! i)) [0..<length xs]))
      | Str s \<Rightarrow> Inr (MapV (map (\<lambda>i. (show_nat i, Str [s ! i])) [0..<length s]))
      | Undefined \<Rightarrow> Inl TypeError
      | Null \<Rightarrow> Inl TypeError
      | Bool _ \<Rightarrow> Inr (MapV [])
      | Num _ \<Rightarrow> Inr (MapV [])
      | PosInf \<Rightarrow> Inr (MapV [])
      | NegInf \<Rightarrow> Inr (MapV [])
      | NaN \<Rightarrow> Inr (MapV [])
      | _ \<Rightarrow> Inl Unmodelled)"

text \<open>
  Line 157: the match of \<open>/^\/(.*)\/([dgimsuy]*)$/\<close>. The text must open with a slash;
  the flags are what follows its last slash and must be flag letters; the body is what
  lies between and must hold no line break. The result is the body and the flags.
\<close>

definition is_flag :: "char \<Rightarrow> bool" where
  "is_flag c = (c \<in> set ''dgimsuy'')"

definition regexp_match :: "string \<Rightarrow> (string \<times> string) option" where
  "regexp_match s =
     (case s of
        [] \<Rightarrow> None
      | c # cs \<Rightarrow>
          if c \<noteq> CHR ''/'' \<or> CHR ''/'' \<notin> set cs then None
          else
            let fl = rev (takeWhile (\<lambda>x. x \<noteq> CHR ''/'') (rev cs));
                body = take (length cs - length fl - 1) cs
            in if list_all is_flag fl \<and> CHR 0x0A \<notin> set body \<and> CHR 0x0D \<notin> set body
               then Some (body, fl) else None)"

text \<open>
  The text the language gives for a value where it needs one (\<open>String(value)\<close>, a
  template, the argument of \<open>exec\<close>). A sequence is the texts of its elements joined
  by commas, \<open>null\<close> and \<open>undefined\<close> counting as empty; a mapping is
  \<open>[object Object]\<close>, unless it has a \<open>toString\<close> or \<open>valueOf\<close> of its own. The
  restored kinds are not modelled.
\<close>

fun ToString :: "jsval \<Rightarrow> string option" where
  "ToString (Str s) = Some s"
| "ToString Null = Some ''null''"
| "ToString Undefined = Some ''undefined''"
| "ToString (Bool b) = Some (if b then ''true'' else ''false'')"
| "ToString (Num i) = (if safe i then Some (show_int i) else None)"
| "ToString PosInf = Some ''Infinity''"
| "ToString NegInf = Some ''-Infinity''"
| "ToString NaN = Some ''NaN''"
| "ToString (BigInt i) = Some (show_int i)"
| "ToString (Arr xs) =
     map_option (join '','')
       (those (map (\<lambda>x. if x = Null \<or> x = Undefined then Some [] else ToString x) xs))"
| "ToString (Obj kvs) =
     (if ''toString'' \<in> fst ` set kvs \<or> ''valueOf'' \<in> fst ` set kvs then None
      else Some ''[object Object]'')"
| "ToString v = None"

text \<open>
  \<open>new RegExp(body, flags)\<close>: the pattern object with that source and those flags,
  for a body that is not empty and holds no slash (the language rewrites the source of
  other bodies) and flags in the order the language reports them, each at most once.
  Whether the body is a well-formed pattern is not modelled.
\<close>

definition new_RegExp :: "string \<Rightarrow> string \<Rightarrow> error + jsval" where
  "new_RegExp body fl =
     (if body \<noteq> [] \<and> CHR ''/'' \<notin> set body \<and> fl = filter (\<lambda>c. c \<in> set fl) ''dgimsuy''
      then Inr (RegExp body fl)
      else Inl Unmodelled)"

definition new_BigInt :: "jsval \<Rightarrow> error + jsval" where
  "new_BigInt v =
     (case v of
        Str s \<Rightarrow> (case parse_int s of Some i \<Rightarrow> Inr (BigInt i) | None \<Rightarrow> Inl Unmodelled)
      | Num i \<Rightarrow> Inr (BigInt i)
      | Bool b \<Rightarrow> Inr (BigInt (if b then 1 else 0))
      | BigInt i \<Rightarrow> Inr (BigInt i)
      | Undefined \<Rightarrow> Inl TypeError
      | Null \<Rightarrow> Inl TypeError
      | PosInf \<Rightarrow> Inl RangeError
      | NegInf \<Rightarrow> Inl RangeError
      | NaN \<Rightarrow> Inl RangeError
      | _ \<Rightarrow> Inl Unmodelled)"

text \<open>Lines 180 to 182: an error from the \<open>message\<close>, \<open>name\<close> and \<open>stack\<close> held.\<close>

definition new_Error :: "jsval \<Rightarrow> error + jsval" where
  "new_Error v =
     (case v of
        Undefined \<Rightarrow> Inl TypeError
      | Null \<Rightarrow> Inl TypeError
      | Obj kvs \<Rightarrow>
          (case (map_of kvs ''name'', map_of kvs ''message'', map_of kvs ''stack'') of
             (Some (Str n), Some (Str m), Some (Str s)) \<Rightarrow> Inr (Err n m s)
           | _ \<Rightarrow> Inl Unmodelled)
      | _ \<Rightarrow> Inl Unmodelled)"

text \<open>
  The \<open>switch\<close> of lines 146 to 185: what is assigned to the slot, if anything. A tag
  that is none of the ten assigns nothing.
\<close>

definition conversion :: "jsval \<Rightarrow> jsval \<Rightarrow> error + jsval option" where
  "conversion type v =
     (if type = Str ''date'' then map_sum id Some (new_Date v)
      else if type = Str ''set'' then map_sum id Some (new_Set v)
      else if type = Str ''map'' then map_sum id Some (new_Map_entries v)
      else if type = Str ''regexp'' then
        (case ToString v of
           None \<Rightarrow> Inl Unmodelled
         | Some s \<Rightarrow>
             (case regexp_match s of
                Some (body, fl) \<Rightarrow> map_sum id Some (new_RegExp body fl)
              | None \<Rightarrow> Inl (FormatError (''Invalid regexp: '' @ s))))
      else if type = Str ''bigint'' then map_sum id Some (new_BigInt v)
      else if type = Str ''undefined'' then Inr (Some Undefined)
      else if type = Str ''infinity'' then Inr (Some PosInf)
      else if type = Str ''-infinity'' then Inr (Some NegInf)
      else if type = Str ''nan'' then Inr (Some NaN)
      else if type = Str ''error'' then map_sum id Some (new_Error v)
      else Inr None)"

text \<open>
  \<open>applyConversion\<close> walks the path by reads and writes the last slot in place. The
  tree it walks is the freshly parsed one, which nothing else refers to, so the walk
  returns the tree with the slot replaced. \<open>split\<close> never gives an empty path.
\<close>

definition replace_child :: "jsval \<Rightarrow> string \<Rightarrow> jsval \<Rightarrow> jsval" where
  "replace_child ob key v =
     (case ob of
        Obj kvs \<Rightarrow> Obj (map (\<lambda>(k', v'). if k' = key then (k', v) else (k', v')) kvs)
      | Arr xs \<Rightarrow> (case array_index key of Some i \<Rightarrow> Arr (xs[i := v]) | None \<Rightarrow> ob)
      | _ \<Rightarrow> ob)"

fun applyConversion :: "jsval \<Rightarrow> string list \<Rightarrow> jsval \<Rightarrow> error + jsval" where
  "applyConversion result [] type = Inl Unmodelled"
| "applyConversion result [key] type =
     (case get_prop result key of
        Inl e \<Rightarrow> Inl e
      | Inr v \<Rightarrow>
          (case conversion type v of
             Inl e \<Rightarrow> Inl e
           | Inr None \<Rightarrow> Inr result
           | Inr (Some v') \<Rightarrow> set_prop result key v'))"
| "applyConversion result (key # ks) type =
     (case get_prop result key of
        Inl e \<Rightarrow> Inl e
      | Inr child \<Rightarrow>
          (case applyConversion child ks type of
             Inl e \<Rightarrow> Inl e
           | Inr child' \<Rightarrow> Inr (replace_child result key child')))"

text \<open>
  The value that the walk of lines 141 to 145 finds at a path: the successive reads
  \<open>result[key]\<close>. For a path whose tag is the pattern tag, \<open>unmatched_text\<close> is the
  text of that value when line 157 does not match it.
\<close>

fun lookup_path :: "jsval \<Rightarrow> string list \<Rightarrow> error + jsval" where
  "lookup_path v [] = Inr v"
| "lookup_path v (key # ks) =
     (case get_prop v key of Inl e \<Rightarrow> Inl e | Inr child \<Rightarrow> lookup_path child ks)"

definition unmatched_text :: "jsval \<Rightarrow> string \<Rightarrow> string option" where
  "unmatched_text result key =
     (case lookup_path result (split CHR ''.'' key) of
        Inl e \<Rightarrow> None
      | Inr v \<Rightarrow>
          (case ToString v of
             None \<Rightarrow> None
           | Some t \<Rightarrow> if regexp_match t = None then Some t else None))"

text \<open>\<open>Object.keys(meta)\<close>, for a tag map that is an object, an array or a primitive.\<close>

definition Object_keys :: "jsval \<Rightarrow> error + string list" where
  "Object_keys v =
     (case v of
        Obj kvs \<Rightarrow> Inr (map fst kvs)
      | Arr xs \<Rightarrow> Inr (map show_nat [0..<length xs])
      | Str s \<Rightarrow> Inr (map show_nat [0..<length s])
      | Bool _ \<Rightarrow> Inr []
      | Num _ \<Rightarrow> Inr []
      | PosInf \<Rightarrow> Inr []
      | NegInf \<Rightarrow> Inr []
      | NaN \<Rightarrow> Inr []
      | Null \<Rightarrow> Inl TypeError
      | Undefined \<Rightarrow> Inl TypeError
      | _ \<Rightarrow> Inl Unmodelled)"

fun apply_meta :: "jsval \<Rightarrow> string list \<Rightarrow> jsval \<Rightarrow> error + jsval" where
  "apply_meta m [] result = Inr result"
| "apply_meta m (key # ks) result =
     (case get_prop m key of
        Inl e \<Rightarrow> Inl e
      | Inr type \<Rightarrow>
          (case applyConversion result (split CHR ''.'' key) type of
             Inl e \<Rightarrow> Inl e
           | Inr result' \<Rightarrow> apply_meta m ks result'))"

definition deserialize :: "jsval \<Rightarrow> jsval \<Rightarrow> error + jsval" where
  "deserialize js m =
     (if \<not> truthy js then Inr Null
      else case js of
             Str s \<Rightarrow>
               (case JSON_parse s of
                  Inl e \<Rightarrow> Inl e
                | Inr result \<Rightarrow>
                    if truthy m then
                      (case Object_keys m of
                         Inl e \<Rightarrow> Inl e
                       | Inr ks \<Rightarrow> apply_meta m ks result)
                    else Inr result)
           | _ \<Rightarrow> Inl Unmodelled)"

section \<open>stringify and parse\<close>

definition stringify :: "jsval \<Rightarrow> error + jsval" where
  \<open>stringify data =
     (case serialize data of
        Inl e \<Rightarrow> Inl e
      | Inr r \<Rightarrow>
          if truthy (json r) \<and> truthy (meta r) then
            (case json r of
               Str j \<Rightarrow>
                 if take 1 j = ''{'' then
                   (case JSON_stringify (meta r) of
                      Inl e \<Rightarrow> Inl e
                    | Inr None \<Rightarrow> Inl Unmodelled
                    | Inr (Some m) \<Rightarrow>
                        Inr (Str (take (length j - 2) j @ '',"__meta__":'' @ m @ ''}'')))
                 else if take 1 j = ''['' then
                   (case JSON_stringify (meta r) of
                      Inl e \<Rightarrow> Inl e
                    | Inr None \<Rightarrow> Inl Unmodelled
                    | Inr (Some m) \<Rightarrow>
                        Inr (Str (''{"__json__"":'' @ j @ '',"__meta__":'' @ m @ ''}'')))
                 else Inr (json r)
             | _ \<Rightarrow> Inr (json r))
          else Inr (json r))\<close>

definition parse :: "string \<Rightarrow> error + jsval" where
  "parse text =
     (case JSON_parse text of
        Inl e \<Rightarrow> Inl e
      | Inr data \<Rightarrow>
          (case get_prop data ''__json__'' of
             Inl e \<Rightarrow> Inl e
           | Inr j \<Rightarrow>
               if truthy j then
                 (case get_prop data ''__meta__'' of
                    Inl e \<Rightarrow> Inl e
                  | Inr m \<Rightarrow> deserialize j m)
               else
                 (case get_prop data ''__meta__'' of
                    Inl e \<Rightarrow> Inl e
                  | Inr m \<Rightarrow> if truthy m then deserialize (Str text) m else Inr data)))"


section \<open>Traces\<close>

text \<open>
  The state after a run of consecutive calls of the replacer, each given the key and
  the value the print primitive hands over.
\<close>

fun visits :: "(string \<times> jsval) list \<Rightarrow> enc_state \<Rightarrow> error + enc_state" where
  "visits [] st = Inr st"
| "visits ((key, v) # rest) st =
     (case replacer key v st of Inl e \<Rightarrow> Inl e | Inr (v', st') \<Rightarrow> visits rest st')"

text \<open>\<open>{a: {b: {c: 1}}, d: 1}\<close>: after \<open>c\<close>, two mappings close before \<open>d\<close> is visited.\<close>

definition nested3 :: jsval where
  "nested3 = Obj [(''a'', Obj [(''b'', Obj [(''c'', Num 1)])]), (''d'', Num 1)]"

section \<open>Trees of the grammar and their text\<close>

text \<open>
  The values the grammar can write down, and the text the print primitive gives for
  them when every value is printed as it stands. The property list of a mapping is as the
  language enumerates it exactly when building a mapping from it gives it back.
\<close>

fun json_tree :: "jsval \<Rightarrow> bool" where
  "json_tree Null = True"
| "json_tree (Bool b) = True"
| "json_tree (Num i) = safe i"
| "json_tree (Str s) = True"
| "json_tree (Arr xs) = (\<forall>x \<in> set xs. json_tree x)"
| "json_tree (Obj kvs) = (fromEntries kvs = kvs \<and> (\<forall>kv \<in> set kvs. json_tree (snd kv)))"
| "json_tree v = False"

fun print_json :: "jsval \<Rightarrow> string" where
  "print_json Null = ''null''"
| "print_json (Bool b) = (if b then ''true'' else ''false'')"
| "print_json (Num i) = show_int i"
| "print_json (Str s) = QuoteJSONString s"
| "print_json (Arr xs) = ''['' @ join '','' (map print_json xs) @ '']''"
| "print_json (Obj kvs) =
     ''{'' @ join '','' (map (\<lambda>kv. QuoteJSONString (fst kv) @ '':'' @ print_json (snd kv)) kvs) @ ''}''"
| "print_json v = []"

text \<open>A bound on the depth the reading of \<open>print_json v\<close> needs.\<close>

fun need :: "jsval \<Rightarrow> nat" where
  "need (Arr xs) = Suc (sum_list (map (\<lambda>x. Suc (need x)) xs))"
| "need (Obj kvs) = Suc (sum_list (map (\<lambda>kv. Suc (need (snd kv))) kvs))"
| "need v = Suc 0"

text \<open>What may follow a value in a text: nothing, a comma or a closing bracket.\<close>

definition follow :: "string \<Rightarrow> bool" where
  "follow rest = (case rest of [] \<Rightarrow> True | c # cs \<Rightarrow> c = CHR '','' \<or> c = CHR '']'' \<or> c = CHR ''}'')"

section \<open>The values the round trip is proved for\<close>

text \<open>
  The pattern objects of the round trip: a source that is not empty and holds no slash
  and no line break, and flags in the order \<open>dgimsuy\<close>, each at most once.
\<close>

definition wf_regexp :: "string \<Rightarrow> string \<Rightarrow> bool" where
  "wf_regexp src fl =
     (src \<noteq> [] \<and> CHR ''/'' \<notin> set src \<and> CHR 0x0A \<notin> set src \<and> CHR 0x0D \<notin> set src
      \<and> fl = filter (\<lambda>c. c \<in> set fl) ''dgimsuy'')"

text \<open>
  A leaf is a value for which the replacer pushes no frame: a scalar, a timestamp, a
  pattern object or an empty container.
\<close>

fun leaf :: "jsval \<Rightarrow> bool" where
  "leaf (Arr xs) = (xs = [])"
| "leaf (Obj kvs) = (kvs = [])"
| "leaf (SetV xs) = (xs = [])"
| "leaf (MapV kvs) = (kvs = [])"
| "leaf (Date s) = iso_utc s"
| "leaf InvalidDate = False"
| "leaf (RegExp src fl) = wf_regexp src fl"
| "leaf (Err n m s) = False"
| "leaf (Num i) = safe i"
| "leaf v = True"

text \<open>The tag of a value, if it has one, and the tree a value is lowered to.\<close>

fun tag_of :: "jsval \<Rightarrow> string option" where
  "tag_of (Date s) = Some ''date''"
| "tag_of (SetV xs) = Some ''set''"
| "tag_of (MapV kvs) = Some ''map''"
| "tag_of (RegExp src fl) = Some ''regexp''"
| "tag_of (Err n m s) = Some ''error''"
| "tag_of (BigInt i) = Some ''bigint''"
| "tag_of PosInf = Some ''infinity''"
| "tag_of NegInf = Some ''-infinity''"
| "tag_of NaN = Some ''nan''"
| "tag_of Undefined = Some ''undefined''"
| "tag_of v = None"

fun lower :: "jsval \<Rightarrow> jsval" where
  "lower (Date s) = Str s"
| "lower (RegExp src fl) = Str (''/'' @ src @ ''/'' @ fl)"
| "lower (BigInt i) = Str (show_int i)"
| "lower PosInf = Str ''Infinity''"
| "lower NegInf = Str ''-Infinity''"
| "lower NaN = Str ''NaN''"
| "lower Undefined = Null"
| "lower (Err n m s) = Obj [(''name'', Str n), (''message'', Str m), (''stack'', Str s)]"
| "lower (SetV xs) = Arr (map lower xs)"
| "lower (MapV kvs) = Obj (map (\<lambda>kv. (fst kv, lower (snd kv))) kvs)"
| "lower (Arr xs) = Arr (map lower xs)"
| "lower (Obj kvs) = Obj (map (\<lambda>kv. (fst kv, lower (snd kv))) kvs)"
| "lower v = v"






definition prefix_of :: "string list \<Rightarrow> string" where
  "prefix_of p = concat (map (\<lambda>s. s @ ''.'') p)"

section \<open>The states between two visits\<close>

definition frame :: "(string \<times> jsval) list \<Rightarrow> nat \<Rightarrow> entry" where
  "frame kvs i = \<lparr>entry_type = ''object'', entry_value = Obj kvs, count = length kvs, iteration = i\<rparr>"

text \<open>
  \<open>clean\<close>: the frame of the mapping being printed is on top, charged \<open>i\<close> times, and
  its prefix is on top of \<open>keys\<close>. \<open>ready\<close>: so it is, or one exhausted frame lies on
  top of it (with its prefix, if it is an \<open>object\<close> frame), which the next visit pops.
\<close>

definition clean :: "entry list \<Rightarrow> string list \<Rightarrow> (string \<times> jsval) list \<Rightarrow> nat \<Rightarrow> string list \<Rightarrow> enc_state \<Rightarrow> bool" where
  "clean S K kvs i p st = (stack st = S @ [frame kvs i] \<and> keys st = K @ [prefix_of p])"

definition ready :: "entry list \<Rightarrow> string list \<Rightarrow> (string \<times> jsval) list \<Rightarrow> nat \<Rightarrow> string list \<Rightarrow> enc_state \<Rightarrow> bool" where
  "ready S K kvs i p st =
     (clean S K kvs i p st
      \<or> (\<exists>e q. stack st = S @ [frame kvs i, e] \<and> iteration e = count e
            \<and> keys st = (if entry_type e = ''object'' then K @ [prefix_of p, q]
                          else K @ [prefix_of p])))"




section \<open>Numerals and string literals read back\<close>

lemma digit_val_digit_char: "d < 10 \<Longrightarrow> digit_val (digit_char d) = Some d"
proof -
  assume "d < 10"
  then have "d = 0 \<or> d = 1 \<or> d = 2 \<or> d = 3 \<or> d = 4 \<or> d = 5 \<or> d = 6 \<or> d = 7
    \<or> d = 8 \<or> d = 9" by arith
  then show ?thesis
    by (elim disjE) (simp_all add: digit_val_def digit_char_def)
qed

lemma digits_val_snoc:
  "digits_val acc (xs @ [c]) =
     (case digits_val acc xs of None \<Rightarrow> None
      | Some a \<Rightarrow> (case digit_val c of None \<Rightarrow> None | Some d \<Rightarrow> Some (10 * a + int d)))"
  by (induction xs arbitrary: acc) (auto split: option.splits)

lemma show_digits_nonempty: "show_digits i \<noteq> []"
  by (subst show_digits.simps) simp

lemma digits_val_show_digits: "0 \<le> i \<Longrightarrow> digits_val 0 (show_digits i) = Some i"
proof (induction i rule: show_digits.induct)
  case (1 i)
  show ?case
  proof (cases "i < 10")
    case True
    with 1(2) have "nat i < 10" by simp
    from digit_val_digit_char[OF this] True 1(2) show ?thesis
      by (subst show_digits.simps) simp
  next
    case False
    then have ih: "digits_val 0 (show_digits (i div 10)) = Some (i div 10)"
      using 1 by simp
    have "nat (i mod 10) < 10" by simp
    from digit_val_digit_char[OF this] ih False show ?thesis
      by (subst show_digits.simps) (simp add: digits_val_snoc)
  qed
qed

lemma parse_digits_show_digits: "0 \<le> i \<Longrightarrow> parse_digits (show_digits i) = Some i"
  by (simp add: parse_digits_def show_digits_nonempty digits_val_show_digits)

lemma is_digit_digit_char: "d < 10 \<Longrightarrow> is_digit (digit_char d)"
  by (simp add: is_digit_def digit_val_digit_char)

lemma show_digits_all_digits: "0 \<le> i \<Longrightarrow> list_all is_digit (show_digits i)"
proof (induction i rule: show_digits.induct)
  case (1 i)
  show ?case
  proof (cases "i < 10")
    case True
    with 1(2) have "nat i < 10" by simp
    from is_digit_digit_char[OF this] True show ?thesis
      by (subst show_digits.simps) simp
  next
    case False
    then have ih: "list_all is_digit (show_digits (i div 10))"
      using 1 by simp
    have "nat (i mod 10) < 10" by simp
    from is_digit_digit_char[OF this] ih False show ?thesis
      by (subst show_digits.simps) simp
  qed
qed

lemma is_digit_not_minus: "is_digit c \<Longrightarrow> c \<noteq> CHR ''-''"
  by (auto simp: is_digit_def digit_val_def)


lemma hex_val_hex_char: "d < 16 \<Longrightarrow> hex_val (hex_char d) = Some d"
proof -
  assume "d < 16"
  then have "d = 0 \<or> d = 1 \<or> d = 2 \<or> d = 3 \<or> d = 4 \<or> d = 5 \<or> d = 6 \<or> d = 7
    \<or> d = 8 \<or> d = 9 \<or> d = 10 \<or> d = 11 \<or> d = 12 \<or> d = 13 \<or> d = 14 \<or> d = 15"
    by arith
  then show ?thesis
    by (elim disjE) (simp_all add: hex_val_def hex_char_def digit_val_def)
qed

lemma parse_chars_quote_char:
  "parse_chars (QuoteJSONChar c @ rest) =
     (case parse_chars rest of Inl e \<Rightarrow> Inl e | Inr (s, r) \<Rightarrow> Inr (c # s, r))"
proof -
  let ?n = "of_char c :: nat"
  consider (special) "c \<in> {CHR 0x08, CHR 0x09, CHR 0x0A, CHR 0x0C, CHR 0x0D, CHR 0x22, CHR 0x5C}"
    | (ctl) "c \<notin> {CHR 0x08, CHR 0x09, CHR 0x0A, CHR 0x0C, CHR 0x0D, CHR 0x22, CHR 0x5C}" "?n < 32"
    | (plain) "c \<notin> {CHR 0x08, CHR 0x09, CHR 0x0A, CHR 0x0C, CHR 0x0D, CHR 0x22, CHR 0x5C}" "\<not> ?n < 32"
    by blast
  then show ?thesis
  proof cases
    case special
    then show ?thesis
      by (auto simp: QuoteJSONChar_def unescape_def)
  next
    case ctl
    have d1: "?n div 16 < 16" and d2: "?n mod 16 < 16" using ctl(2) by auto
    have "hex4 CHR ''0'' CHR ''0'' (hex_char (?n div 16)) (hex_char (?n mod 16)) = Some ?n"
      using hex_val_hex_char[OF d1] hex_val_hex_char[OF d2]
      by (simp add: hex4_def hex_val_def digit_val_def)
    moreover have "?n < 256" using ctl(2) by simp
    moreover have "char_of ?n = c" by simp
    ultimately show ?thesis using ctl
      by (simp add: QuoteJSONChar_def split: sum.splits prod.splits)
  next
    case plain
    then show ?thesis
      by (simp add: QuoteJSONChar_def)
  qed
qed

lemma parse_chars_quoted:
  "parse_chars (concat (map QuoteJSONChar s) @ CHR 0x22 # rest) = Inr (s, rest)"
  by (induction s) (simp_all add: parse_chars_quote_char)

section \<open>The root of a value\<close>

lemma JSON_parse_quoted: "JSON_parse (QuoteJSONString s) = Inr (Str s)"
proof -
  have "parse_chars (concat (map QuoteJSONChar s) @ [CHR 0x22]) = Inr (s, [])"
    using parse_chars_quoted [of s "[]"] by simp
  then show ?thesis
    by (simp add: JSON_parse_def QuoteJSONString_def is_ws_def)
qed

lemma array_index_json_key: "array_index ''__json__'' = None"
  by (simp add: array_index_def parse_digits_def digit_val_def)

lemma array_index_meta_key: "array_index ''__meta__'' = None"
  by (simp add: array_index_def parse_digits_def digit_val_def)

lemmas proto_defs =
  absent_def inherited_def object_proto_def array_proto_def string_proto_def number_proto_def

lemma absent_json_key [simp]: "absent ob ''__json__'' = Inr Undefined"
  by (cases ob) (simp_all add: proto_defs)

lemma absent_meta_key [simp]: "absent ob ''__meta__'' = Inr Undefined"
  by (cases ob) (simp_all add: proto_defs)

lemma parse_quoted: "parse (QuoteJSONString s) = Inr (Str s)"
  by (simp add: parse_def JSON_parse_quoted get_prop_def array_index_json_key
      array_index_meta_key truthy_def)

lemma array_index_empty: "array_index [] = None"
  by (simp add: array_index_def parse_digits_def)

lemma fromEntries_single: "fromEntries [(k, v)] = [(k, v)]"
  by (simp add: fromEntries_def obj_put_def split: option.splits)

lemmas root_simps = serialize_def SerializeJSONProperty.simps replacer_def owning_entry_def toJSON_def typeof_def
  classify_def top_key_def meta_set_def fromEntries_single Let_def

lemma serialize_Bool: "serialize (Bool b) = Inr \<lparr>json = Str (if b then ''true'' else ''false''), meta = Undefined\<rparr>"
  by (simp add: root_simps)

lemma serialize_Num:
  "safe i \<Longrightarrow> serialize (Num i) = Inr \<lparr>json = Str (show_int i), meta = Undefined\<rparr>"
  by (simp add: root_simps)

lemma serialize_Num_unsafe: "\<not> safe i \<Longrightarrow> serialize (Num i) = Inl Unmodelled"
  by (simp add: root_simps)

lemma serialize_Str: "serialize (Str s) = Inr \<lparr>json = Str (QuoteJSONString s), meta = Undefined\<rparr>"
  by (simp add: root_simps)

lemma serialize_Date: "serialize (Date d) = Inr \<lparr>json = Str (QuoteJSONString d), meta = Undefined\<rparr>"
  by (simp add: root_simps)

lemma serialize_InvalidDate: "serialize InvalidDate = Inr \<lparr>json = Str ''null'', meta = Undefined\<rparr>"
  by (simp add: root_simps)

lemma serialize_BigInt:
  "serialize (BigInt i) = Inr \<lparr>json = Str (QuoteJSONString (show_int i)), meta = Obj [([], Str ''bigint'')]\<rparr>"
  by (simp add: root_simps)

lemma serialize_PosInf:
  "serialize PosInf = Inr \<lparr>json = Str (QuoteJSONString ''Infinity''), meta = Obj [([], Str ''infinity'')]\<rparr>"
  by (simp add: root_simps)

lemma serialize_NegInf:
  "serialize NegInf = Inr \<lparr>json = Str (QuoteJSONString ''-Infinity''), meta = Obj [([], Str ''-infinity'')]\<rparr>"
  by (simp add: root_simps)

lemma serialize_NaN:
  "serialize NaN = Inr \<lparr>json = Str (QuoteJSONString ''NaN''), meta = Obj [([], Str ''nan'')]\<rparr>"
  by (simp add: root_simps)

lemma serialize_RegExp:
  "serialize (RegExp src fl) =
     Inr \<lparr>json = Str (QuoteJSONString (''/'' @ src @ ''/'' @ fl)), meta = Obj [([], Str ''regexp'')]\<rparr>"
  by (simp add: root_simps)


lemma container_text:
  assumes "SerializeJSONProperty rep (Suc n) key v st = Inr (t, st')"
    and "rep key (toJSON v) st = Inr (v', st1)"
  shows "(\<forall>xs. v' = Arr xs \<longrightarrow> (\<exists>u. t = Some (CHR ''['' # u)))
       \<and> (\<forall>kvs. v' = Obj kvs \<longrightarrow> (\<exists>u. t = Some (CHR ''{'' # u)))"
  using assms by (auto split: sum.splits prod.splits)

lemmas replacer_root_simps = replacer_def owning_entry_def toJSON_def typeof_def
  classify_def top_key_def meta_set_def Let_def


lemma serialize_container_text:
  assumes "serialize v = Inr r" and "v \<noteq> Null" and "v \<noteq> Undefined"
    and "replacer [] (toJSON v) \<lparr>stack = [], keys = [[]], meta_map = []\<rparr> = Inr (v', st1)"
  shows "(\<forall>xs. v' = Arr xs \<longrightarrow> (\<exists>u. json r = Str (CHR ''['' # u)))
       \<and> (\<forall>kvs. v' = Obj kvs \<longrightarrow> (\<exists>u. json r = Str (CHR ''{'' # u)))"
proof -
  from assms(1-3) have
    "\<exists>t st. SerializeJSONProperty replacer (Suc (nodes v)) [] v
           \<lparr>stack = [], keys = [[]], meta_map = []\<rparr> = Inr (t, st)
         \<and> json r = (case t of None \<Rightarrow> Undefined | Some s \<Rightarrow> Str s)"
    by (auto simp: serialize_def simp del: SerializeJSONProperty.simps
        split: if_splits sum.splits prod.splits)
  then obtain t st where
    s: "SerializeJSONProperty replacer (Suc (nodes v)) [] v
           \<lparr>stack = [], keys = [[]], meta_map = []\<rparr> = Inr (t, st)"
    and j: "json r = (case t of None \<Rightarrow> Undefined | Some s \<Rightarrow> Str s)"
    by blast
  from container_text [OF s assms(4)] j show ?thesis
    by auto
qed

lemma replacer_root_Arr:
  "\<exists>st1. replacer [] (toJSON (Arr xs)) \<lparr>stack = [], keys = [[]], meta_map = []\<rparr> = Inr (Arr xs, st1)"
  by (simp add: replacer_root_simps)

lemma replacer_root_SetV:
  "\<exists>st1. replacer [] (toJSON (SetV xs)) \<lparr>stack = [], keys = [[]], meta_map = []\<rparr> = Inr (Arr xs, st1)"
  by (simp add: replacer_root_simps)

lemma replacer_root_Obj:
  "\<exists>st1. replacer [] (toJSON (Obj kvs)) \<lparr>stack = [], keys = [[]], meta_map = []\<rparr> = Inr (Obj kvs, st1)"
  by (simp add: replacer_root_simps)

lemma replacer_root_MapV:
  "\<exists>st1. replacer [] (toJSON (MapV kvs)) \<lparr>stack = [], keys = [[]], meta_map = []\<rparr>
     = Inr (Obj (fromEntries kvs), st1)"
  by (simp add: replacer_root_simps)

lemma replacer_root_Err:
  "\<exists>st1. replacer [] (toJSON (Err n m s)) \<lparr>stack = [], keys = [[]], meta_map = []\<rparr>
     = Inr (Obj [(''name'', Str n), (''message'', Str m), (''stack'', Str s)], st1)"
  by (simp add: replacer_root_simps)

lemma serialize_Arr_text: "serialize (Arr xs) = Inr r \<Longrightarrow> \<exists>t. json r = Str (CHR ''['' # t)"
  using serialize_container_text [of "Arr xs" r, simplified] replacer_root_Arr [of xs] by blast

lemma serialize_SetV_text: "serialize (SetV xs) = Inr r \<Longrightarrow> \<exists>t. json r = Str (CHR ''['' # t)"
  using serialize_container_text [of "SetV xs" r, simplified] replacer_root_SetV [of xs] by blast

lemma serialize_Obj_text: "serialize (Obj kvs) = Inr r \<Longrightarrow> \<exists>t. json r = Str (CHR ''{'' # t)"
  using serialize_container_text [of "Obj kvs" r, simplified] replacer_root_Obj [of kvs] by blast

lemma serialize_MapV_text: "serialize (MapV kvs) = Inr r \<Longrightarrow> \<exists>t. json r = Str (CHR ''{'' # t)"
  using serialize_container_text [of "MapV kvs" r, simplified] replacer_root_MapV [of kvs] by blast

lemma serialize_Err_text: "serialize (Err n m s) = Inr r \<Longrightarrow> \<exists>t. json r = Str (CHR ''{'' # t)"
  using serialize_container_text [of "Err n m s" r, simplified] replacer_root_Err [of n m s] by blast

section \<open>Where the format error comes from\<close>

lemma JSON_parse_no_format: "JSON_parse s \<noteq> Inl (FormatError msg)"
  by (auto simp: JSON_parse_def error_of_def split: sum.splits prod.splits if_splits parse_failure.splits)

lemma get_prop_no_format: "get_prop ob k \<noteq> Inl (FormatError msg)"
  by (auto simp: get_prop_def absent_def split: jsval.splits option.splits)

lemma set_prop_no_format: "set_prop ob k v \<noteq> Inl (FormatError msg)"
  by (auto simp: set_prop_def split: jsval.splits option.splits if_splits)

lemma new_Date_no_format: "new_Date v \<noteq> Inl (FormatError msg)"
  by (auto simp: new_Date_def split: jsval.splits)

lemma new_Set_no_format: "new_Set v \<noteq> Inl (FormatError msg)"
  by (auto simp: new_Set_def split: jsval.splits)

lemma new_Map_entries_no_format: "new_Map_entries v \<noteq> Inl (FormatError msg)"
  by (auto simp: new_Map_entries_def split: jsval.splits)

lemma new_BigInt_no_format: "new_BigInt v \<noteq> Inl (FormatError msg)"
  by (auto simp: new_BigInt_def split: jsval.splits option.splits)

lemma new_Error_no_format: "new_Error v \<noteq> Inl (FormatError msg)"
  by (auto simp: new_Error_def split: jsval.splits option.splits)

lemma new_RegExp_no_format: "new_RegExp body fl \<noteq> Inl (FormatError msg)"
  by (simp add: new_RegExp_def)

lemma map_sum_Inl_iff: "map_sum id f x = Inl e \<longleftrightarrow> x = Inl e"
  by (cases x) simp_all

lemmas no_format = new_Date_no_format new_Set_no_format new_Map_entries_no_format
  new_BigInt_no_format new_Error_no_format new_RegExp_no_format get_prop_no_format
  set_prop_no_format JSON_parse_no_format

lemma conversion_regexp:
  "conversion (Str ''regexp'') v =
     (case ToString v of
        None \<Rightarrow> Inl Unmodelled
      | Some s \<Rightarrow>
          (case regexp_match s of
             Some (body, fl) \<Rightarrow> map_sum id Some (new_RegExp body fl)
           | None \<Rightarrow> Inl (FormatError (''Invalid regexp: '' @ s))))"
  by (simp add: conversion_def)

lemma conversion_other_no_format:
  "type \<noteq> Str ''regexp'' \<Longrightarrow> conversion type v \<noteq> Inl (FormatError msg)"
  by (simp add: conversion_def map_sum_Inl_iff no_format)

lemma conversion_format:
  "conversion type v = Inl (FormatError msg) \<longleftrightarrow>
     type = Str ''regexp'' \<and> (\<exists>s. ToString v = Some s \<and> regexp_match s = None
        \<and> msg = ''Invalid regexp: '' @ s)"
proof (cases "type = Str ''regexp''")
  case True
  show ?thesis
  proof (cases "ToString v")
    case None
    with True show ?thesis by (simp add: conversion_regexp)
  next
    case (Some s)
    show ?thesis
    proof (cases "regexp_match s")
      case None
      with True Some show ?thesis by (auto simp: conversion_regexp)
    next
      case m: (Some bf)
      with True Some show ?thesis
        by (cases bf) (simp add: conversion_regexp map_sum_Inl_iff no_format)
    qed
  qed
next
  case False
  with conversion_other_no_format [of type v msg] show ?thesis by simp
qed

lemma applyConversion_format:
  "ks \<noteq> [] \<Longrightarrow>
   applyConversion result ks type = Inl (FormatError msg) \<longleftrightarrow>
     type = Str ''regexp'' \<and> (\<exists>v t. lookup_path result ks = Inr v \<and> ToString v = Some t
        \<and> regexp_match t = None \<and> msg = ''Invalid regexp: '' @ t)"
proof (induction result ks type rule: applyConversion.induct)
  case (1 result type)
  then show ?case by simp
next
  case (2 result key type)
  show ?case
  proof (cases "get_prop result key")
    case (Inl e)
    with get_prop_no_format [of result key msg] show ?thesis by auto
  next
    case (Inr v)
    show ?thesis
    proof (cases "conversion type v")
      case e: (Inl e)
      with Inr conversion_format [of type v msg] show ?thesis by auto
    next
      case r: (Inr w)
      with conversion_format [of type v msg]
      have no: "\<not> (type = Str ''regexp'' \<and> (\<exists>t. ToString v = Some t \<and> regexp_match t = None
          \<and> msg = ''Invalid regexp: '' @ t))"
        by simp
      have "applyConversion result [key] type \<noteq> Inl (FormatError msg)"
        using Inr r set_prop_no_format [of result key _ msg] by (cases w) auto
      with Inr no show ?thesis by auto
    qed
  qed
next
  case (3 result key v va type)
  show ?case
  proof (cases "get_prop result key")
    case (Inl e)
    with get_prop_no_format [of result key msg] show ?thesis by auto
  next
    case (Inr child)
    have "applyConversion result (key # v # va) type = Inl (FormatError msg)
        \<longleftrightarrow> applyConversion child (v # va) type = Inl (FormatError msg)"
      using Inr by (auto split: sum.splits)
    also have "\<dots> \<longleftrightarrow> type = Str ''regexp'' \<and> (\<exists>w t. lookup_path child (v # va) = Inr w
        \<and> ToString w = Some t \<and> regexp_match t = None \<and> msg = ''Invalid regexp: '' @ t)"
      using "3.IH" [OF Inr] by simp
    also have "lookup_path child (v # va) = lookup_path result (key # v # va)"
      using Inr by simp
    finally show ?thesis .
  qed
qed

lemma split_nonempty: "split sep s \<noteq> []"
  by (induction s) (auto split: list.splits)

lemma unmatched_text_iff:
  "unmatched_text cur k = Some t \<longleftrightarrow>
     (\<exists>v. lookup_path cur (split CHR ''.'' k) = Inr v \<and> ToString v = Some t \<and> regexp_match t = None)"
  by (auto simp: unmatched_text_def split: sum.splits option.splits)

lemma apply_meta_append:
  "apply_meta m (pre @ ks) result =
     (case apply_meta m pre result of Inl e \<Rightarrow> Inl e | Inr cur \<Rightarrow> apply_meta m ks cur)"
  by (induction pre arbitrary: result) (auto split: sum.splits)

lemma apply_meta_format:
  "apply_meta m ks result = Inl (FormatError msg) \<longleftrightarrow>
     (\<exists>pre k post cur t. ks = pre @ k # post \<and> apply_meta m pre result = Inr cur
        \<and> get_prop m k = Inr (Str ''regexp'') \<and> unmatched_text cur k = Some t
        \<and> msg = ''Invalid regexp: '' @ t)"
proof
  show "apply_meta m ks result = Inl (FormatError msg) \<Longrightarrow>
     \<exists>pre k post cur t. ks = pre @ k # post \<and> apply_meta m pre result = Inr cur
        \<and> get_prop m k = Inr (Str ''regexp'') \<and> unmatched_text cur k = Some t
        \<and> msg = ''Invalid regexp: '' @ t"
  proof (induction ks arbitrary: result)
    case Nil
    then show ?case by simp
  next
    case (Cons k ks)
    show ?case
    proof (cases "get_prop m k")
      case (Inl e)
      with Cons.prems get_prop_no_format [of m k msg] show ?thesis by simp
    next
      case (Inr type)
      show ?thesis
      proof (cases "applyConversion result (split CHR ''.'' k) type")
        case (Inl e)
        with Cons.prems Inr have "applyConversion result (split CHR ''.'' k) type = Inl (FormatError msg)"
          by simp
        with applyConversion_format [OF split_nonempty, of result "CHR ''.''" k type msg]
        have "type = Str ''regexp''" and "\<exists>t. unmatched_text result k = Some t \<and> msg = ''Invalid regexp: '' @ t"
          by (auto simp: unmatched_text_iff)
        then obtain t where "unmatched_text result k = Some t" "msg = ''Invalid regexp: '' @ t"
          by blast
        with Inr \<open>type = Str ''regexp''\<close>
        have "k # ks = [] @ k # ks \<and> apply_meta m [] result = Inr result
            \<and> get_prop m k = Inr (Str ''regexp'') \<and> unmatched_text result k = Some t
            \<and> msg = ''Invalid regexp: '' @ t"
          by simp
        then show ?thesis by blast
      next
        case r: (Inr result')
        with Cons.prems Inr have "apply_meta m ks result' = Inl (FormatError msg)" by simp
        from Cons.IH [OF this] obtain pre k' post cur t where
          h: "ks = pre @ k' # post" "apply_meta m pre result' = Inr cur"
             "get_prop m k' = Inr (Str ''regexp'')" "unmatched_text cur k' = Some t"
             "msg = ''Invalid regexp: '' @ t"
          by blast
        have "k # ks = (k # pre) @ k' # post \<and> apply_meta m (k # pre) result = Inr cur
            \<and> get_prop m k' = Inr (Str ''regexp'') \<and> unmatched_text cur k' = Some t
            \<and> msg = ''Invalid regexp: '' @ t"
          using h Inr r by simp
        then show ?thesis by blast
      qed
    qed
  qed
next
  assume "\<exists>pre k post cur t. ks = pre @ k # post \<and> apply_meta m pre result = Inr cur
        \<and> get_prop m k = Inr (Str ''regexp'') \<and> unmatched_text cur k = Some t
        \<and> msg = ''Invalid regexp: '' @ t"
  then obtain pre k post cur t where
    h: "ks = pre @ k # post" "apply_meta m pre result = Inr cur"
       "get_prop m k = Inr (Str ''regexp'')" "unmatched_text cur k = Some t"
       "msg = ''Invalid regexp: '' @ t"
    by blast
  have "applyConversion cur (split CHR ''.'' k) (Str ''regexp'') = Inl (FormatError msg)"
    using applyConversion_format [OF split_nonempty, of cur "CHR ''.''" k "Str ''regexp''" msg] h(4,5)
    by (auto simp: unmatched_text_iff)
  then show "apply_meta m ks result = Inl (FormatError msg)"
    using h(1,2,3) by (simp add: apply_meta_append)
qed

lemma Object_keys_no_format: "Object_keys m \<noteq> Inl (FormatError msg)"
  by (auto simp: Object_keys_def split: jsval.splits)

lemma deserialize_format:
  "deserialize (Str s) m = Inl (FormatError msg) \<longleftrightarrow>
     s \<noteq> [] \<and> truthy m \<and>
     (\<exists>result ks. JSON_parse s = Inr result \<and> Object_keys m = Inr ks
        \<and> apply_meta m ks result = Inl (FormatError msg))"
proof (cases "JSON_parse s")
  case (Inl e)
  with JSON_parse_no_format [of s msg] show ?thesis
    by (auto simp: deserialize_def truthy_def)
next
  case (Inr result)
  show ?thesis
  proof (cases "Object_keys m")
    case (Inl e)
    with Inr Object_keys_no_format [of m msg] show ?thesis
      by (auto simp: deserialize_def truthy_def)
  next
    case ks: (Inr ks)
    with Inr show ?thesis
      by (auto simp: deserialize_def truthy_def)
  qed
qed


section \<open>The text of a tree read back\<close>

lemma is_digit_codes: "is_digit c \<longleftrightarrow> (48::nat) \<le> of_char c \<and> of_char c < (58::nat)"
  by (simp add: is_digit_def digit_val_def)

lemma takeWhile_digits:
  "list_all is_digit ds \<Longrightarrow> follow rest \<Longrightarrow> takeWhile is_digit (ds @ rest) = ds \<and> dropWhile is_digit (ds @ rest) = rest"
  by (induction ds) (auto simp: follow_def is_digit_codes split: list.splits)

lemma show_digits_leading:
  "0 \<le> i \<Longrightarrow> show_digits i = CHR ''0'' # cs \<Longrightarrow> cs = []"
proof (induction i arbitrary: cs rule: show_digits.induct)
  case (1 i)
  show ?case
  proof (cases "i < 10")
    case True
    with 1(3) show ?thesis by (subst (asm) show_digits.simps) simp
  next
    case False
    then have pos: "1 \<le> i div 10" by simp
    from False 1(3) have eq: "show_digits (i div 10) @ [digit_char (nat (i mod 10))] = CHR ''0'' # cs"
      by (subst (asm) show_digits.simps) simp
    obtain d ds where ds: "show_digits (i div 10) = d # ds"
      using show_digits_nonempty [of "i div 10"] by (cases "show_digits (i div 10)") auto
    with eq have "d = CHR ''0''" by simp
    with ds 1(1) [OF False _ ] pos have "ds = []" by simp
    with ds \<open>d = CHR ''0''\<close> have z: "show_digits (i div 10) = ''0''" by simp
    have "parse_digits (show_digits (i div 10)) = Some (i div 10)"
      using pos by (intro parse_digits_show_digits) simp
    with z have "i div 10 = 0" by (simp add: parse_digits_def digit_val_def)
    with pos show ?thesis by simp
  qed
qed

lemma parse_number_digits:
  assumes "list_all is_digit ds" and "ds \<noteq> []"
    and "\<not> (take 1 ds = ''0'' \<and> length ds > 1)" and "follow rest"
    and "parse_digits ds = Some a" and "a \<le> 9007199254740992"
  shows "parse_number (ds @ rest) = Inr (Num a, rest)"
    and "a \<noteq> 0 \<Longrightarrow> parse_number (CHR ''-'' # ds @ rest) = Inr (Num (- a), rest)"
proof -
  obtain d ds' where dd: "ds = d # ds'" using assms(2) by (cases ds) auto
  with assms(1) have dig: "is_digit d" and all': "list_all is_digit ds'" by simp_all
  from dig have dm: "d \<noteq> CHR ''-''" by (rule is_digit_not_minus)
  have fr: "take (Suc 0) rest \<noteq> ''.''" "take (Suc 0) rest \<noteq> ''e''" "take (Suc 0) rest \<noteq> ''E''"
    using assms(4) by (auto simp: follow_def split: list.splits)
  from takeWhile_digits [OF all' assms(4)]
  have tw: "takeWhile is_digit (ds' @ rest) = ds'" and dw: "dropWhile is_digit (ds' @ rest) = rest"
    by simp_all
  show "parse_number (ds @ rest) = Inr (Num a, rest)"
    using assms(3,5,6) dig dm fr by (simp add: parse_number_def Let_def dd tw dw)
  show "a \<noteq> 0 \<Longrightarrow> parse_number (CHR ''-'' # ds @ rest) = Inr (Num (- a), rest)"
    using assms(3,5,6) dig dm fr by (simp add: parse_number_def Let_def dd tw dw)
qed

lemma parse_number_show_int:
  assumes "follow rest" and "safe i"
  shows "parse_number (show_int i @ rest) = Inr (Num i, rest)"
proof -
  define a where "a = (if i < 0 then - i else i)"
  have a0: "0 \<le> a" by (simp add: a_def)
  have le: "a \<le> 9007199254740992" using assms(2) by (simp add: a_def safe_def)
  have all: "list_all is_digit (show_digits a)" using a0 by (rule show_digits_all_digits)
  have lead: "\<not> (take 1 (show_digits a) = ''0'' \<and> length (show_digits a) > 1)"
  proof (cases "show_digits a")
    case Nil
    then show ?thesis by simp
  next
    case (Cons d ds)
    with show_digits_leading [OF a0, of ds] show ?thesis by auto
  qed
  have pd: "parse_digits (show_digits a) = Some a" using a0 by (rule parse_digits_show_digits)
  note pn = parse_number_digits [OF all show_digits_nonempty lead assms(1) pd le]
  show ?thesis
  proof (cases "i < 0")
    case True
    with pn(2) show ?thesis by (simp add: show_int_def a_def)
  next
    case False
    with pn(1) show ?thesis by (simp add: show_int_def a_def)
  qed
qed

lemma show_int_first:
  "\<exists>c cs. show_int i = c # cs \<and> (c = CHR ''-'' \<or> is_digit c)"
proof -
  have "\<And>a. 0 \<le> a \<Longrightarrow> \<exists>c cs. show_digits a = c # cs \<and> is_digit c"
  proof -
    fix a :: int assume "0 \<le> a"
    from show_digits_all_digits [OF this] show_digits_nonempty [of a]
    show "\<exists>c cs. show_digits a = c # cs \<and> is_digit c"
      by (cases "show_digits a") auto
  qed
  from this [of i] show ?thesis
    by (auto simp: show_int_def)
qed

lemma join_Cons: "xs \<noteq> [] \<Longrightarrow> join sep (x # xs) = x @ sep @ join sep xs"
  by (cases xs) simp_all

lemma skip_ws_nonws: "\<not> is_ws c \<Longrightarrow> skip_ws (c # cs) = c # cs"
  by simp

lemma print_first:
  "json_tree j \<Longrightarrow> \<exists>c cs. print_json j = c # cs \<and> \<not> is_ws c \<and> c \<noteq> CHR '']'' \<and> c \<noteq> CHR ''}''"
proof (cases j)
  case (Num i)
  from show_int_first [of i] obtain c cs where "show_int i = c # cs" "c = CHR ''-'' \<or> is_digit c"
    by blast
  with Num show ?thesis by (auto simp: is_ws_def is_digit_codes)
qed (auto simp: is_ws_def QuoteJSONString_def)

lemma parse_elements_print:
  assumes "xs \<noteq> []"
    and "\<And>x n rest. x \<in> set xs \<Longrightarrow> need x \<le> n \<Longrightarrow> follow rest
           \<Longrightarrow> parse_value n (print_json x @ rest) = Inr (x, rest)"
    and "sum_list (map (\<lambda>x. Suc (need x)) xs) \<le> n"
  shows "parse_elements n (join '','' (map print_json xs) @ CHR '']'' # rest) = Inr (xs, rest)"
  using assms
proof (induction xs arbitrary: n rule: list_nonempty_induct)
  case (single x)
  from single(2) obtain n' where n: "n = Suc n'" and le: "need x \<le> n'"
    by (cases n) auto
  have "parse_value n' (print_json x @ CHR '']'' # rest) = Inr (x, CHR '']'' # rest)"
    using single(1) [of x n' "CHR '']'' # rest"] le by (simp add: follow_def)
  then show ?case
    by (simp add: n is_ws_def)
next
  case (cons x xs)
  from cons(4) obtain n' where n: "n = Suc n'" and le: "need x \<le> n'"
    and les: "sum_list (map (\<lambda>x. Suc (need x)) xs) \<le> n'"
    by (cases n) auto
  let ?tail = "join '','' (map print_json xs) @ CHR '']'' # rest"
  have pv: "parse_value n' (print_json x @ CHR '','' # ?tail) = Inr (x, CHR '','' # ?tail)"
    using cons(3) [of x n' "CHR '','' # ?tail"] le by (simp add: follow_def)
  have pe: "parse_elements n' ?tail = Inr (xs, rest)"
    using cons(2) [of n'] cons(3) les by simp
  have jn: "join '','' (print_json x # map print_json xs) = print_json x @ '','' @ join '','' (map print_json xs)"
    using cons(1) by (simp add: join_Cons)
  show ?case
    by (simp add: n jn pv pe is_ws_def)
qed

lemma parse_members_print:
  assumes "kvs \<noteq> []"
    and "\<And>kv n rest. kv \<in> set kvs \<Longrightarrow> need (snd kv) \<le> n \<Longrightarrow> follow rest
           \<Longrightarrow> parse_value n (print_json (snd kv) @ rest) = Inr (snd kv, rest)"
    and "sum_list (map (\<lambda>kv. Suc (need (snd kv))) kvs) \<le> n"
  shows "parse_members n
           (join '','' (map (\<lambda>kv. QuoteJSONString (fst kv) @ '':'' @ print_json (snd kv)) kvs)
             @ CHR ''}'' # rest) = Inr (kvs, rest)"
  using assms
proof (induction kvs arbitrary: n rule: list_nonempty_induct)
  case (single kv)
  obtain k v where kv: "kv = (k, v)" by (cases kv)
  from single(2) obtain n' where n: "n = Suc n'" and le: "need v \<le> n'"
    by (cases n) (auto simp: kv)
  have pv: "parse_value n' (print_json v @ CHR ''}'' # rest) = Inr (v, CHR ''}'' # rest)"
    using single(1) [of kv n' "CHR ''}'' # rest"] le by (simp add: follow_def kv)
  have pc: "parse_chars (concat (map QuoteJSONChar k) @ CHR 0x22 # CHR '':'' # print_json v @ CHR ''}'' # rest)
      = Inr (k, CHR '':'' # print_json v @ CHR ''}'' # rest)"
    by (rule parse_chars_quoted)
  have tx: "join '','' (map (\<lambda>kv. QuoteJSONString (fst kv) @ '':'' @ print_json (snd kv)) [kv])
             @ CHR ''}'' # rest
      = CHR 0x22 # concat (map QuoteJSONChar k) @ CHR 0x22 # CHR '':'' # print_json v @ CHR ''}'' # rest"
    by (simp add: kv QuoteJSONString_def)
  show ?case
    unfolding tx using pv pc by (simp add: n is_ws_def kv)
next
  case (cons kv kvs)
  obtain k v where kv: "kv = (k, v)" by (cases kv)
  from cons(4) obtain n' where n: "n = Suc n'" and le: "need v \<le> n'"
    and les: "sum_list (map (\<lambda>kv. Suc (need (snd kv))) kvs) \<le> n'"
    by (cases n) (auto simp: kv)
  let ?tail = "join '','' (map (\<lambda>kv. QuoteJSONString (fst kv) @ '':'' @ print_json (snd kv)) kvs)
             @ CHR ''}'' # rest"
  have pv: "parse_value n' (print_json v @ CHR '','' # ?tail) = Inr (v, CHR '','' # ?tail)"
    using cons(3) [of kv n' "CHR '','' # ?tail"] le by (simp add: follow_def kv)
  have pm: "parse_members n' ?tail = Inr (kvs, rest)"
    using cons(2) [of n'] cons(3) les by simp
  have pc: "parse_chars (concat (map QuoteJSONChar k) @ CHR 0x22 # CHR '':'' # print_json v @ CHR '','' # ?tail)
      = Inr (k, CHR '':'' # print_json v @ CHR '','' # ?tail)"
    by (rule parse_chars_quoted)
  have tx: "join '','' (map (\<lambda>kv. QuoteJSONString (fst kv) @ '':'' @ print_json (snd kv)) (kv # kvs))
             @ CHR ''}'' # rest
      = CHR 0x22 # concat (map QuoteJSONChar k) @ CHR 0x22 # CHR '':'' # print_json v @ CHR '','' # ?tail"
    using cons(1) by (simp add: join_Cons kv QuoteJSONString_def)
  show ?case
    unfolding tx using pv pm pc by (simp add: n is_ws_def kv)
qed


lemma fuel_split:
  "Suc m \<le> n \<Longrightarrow> \<exists>n'. n = Suc n' \<and> m \<le> n'"
  by (cases n) auto

lemma parse_print:
  "json_tree j \<Longrightarrow> need j \<le> n \<Longrightarrow> follow rest \<Longrightarrow> parse_value n (print_json j @ rest) = Inr (j, rest)"
proof (induction j arbitrary: n rest rule: print_json.induct)
  case 1
  then obtain n' where "n = Suc n'" by (cases n) auto
  then show ?case by (simp add: is_ws_def is_digit_codes)
next
  case (2 b)
  then obtain n' where "n = Suc n'" by (cases n) auto
  then show ?case by (simp add: is_ws_def is_digit_codes)
next
  case (3 i)
  then obtain n' where n: "n = Suc n'" by (cases n) auto
  from show_int_first [of i] obtain c cs where sc: "show_int i = c # cs"
    and c: "c = CHR ''-'' \<or> is_digit c" by blast
  from c have nw: "\<not> is_ws c" "c \<noteq> CHR ''{''" "c \<noteq> CHR ''[''" "c \<noteq> CHR 0x22"
    by (auto simp: is_ws_def is_digit_codes)
  have "parse_number (c # cs @ rest) = Inr (Num i, rest)"
    using parse_number_show_int [OF 3(3), of i] 3(1) sc by simp
  with nw c show ?case
    by (simp add: n sc)
next
  case (4 s)
  then obtain n' where n: "n = Suc n'" by (cases n) auto
  have "parse_chars (concat (map QuoteJSONChar s) @ CHR 0x22 # rest) = Inr (s, rest)"
    by (rule parse_chars_quoted)
  then show ?case
    by (simp add: n QuoteJSONString_def is_ws_def)
next
  case (5 xs)
  from 5(3) obtain n' where n: "n = Suc n'"
    and le: "sum_list (map (\<lambda>x. Suc (need x)) xs) \<le> n'"
    using fuel_split [of _ n] by auto
  show ?case
  proof (cases "xs = []")
    case True
    then show ?thesis by (simp add: n is_ws_def)
  next
    case False
    then obtain x xs' where xs: "xs = x # xs'" by (cases xs) auto
    from 5(2) xs have "json_tree x" by simp
    from print_first [OF this] obtain c cs where pc: "print_json x = c # cs"
      and c: "\<not> is_ws c" "c \<noteq> CHR '']''" by blast
    have first: "\<exists>cs'. join '','' (map print_json xs) @ CHR '']'' # rest = c # cs'"
      using pc xs by (cases xs') auto
    have pe: "parse_elements n' (join '','' (map print_json xs) @ CHR '']'' # rest) = Inr (xs, rest)"
    proof (rule parse_elements_print [OF False _ le])
      fix x m r assume "x \<in> set xs" "need x \<le> m" "follow r"
      with 5(1) [of x m r] 5(2) show "parse_value m (print_json x @ r) = Inr (x, r)"
        by simp
    qed
    from first obtain cs' where f: "join '','' (map print_json xs) @ CHR '']'' # rest = c # cs'"
      by blast
    have "take 1 (skip_ws (join '','' (map print_json xs) @ CHR '']'' # rest)) \<noteq> '']''"
      unfolding f using c by simp
    with pe show ?thesis
      by (simp add: n is_ws_def)
  qed
next
  case (6 kvs)
  from 6(3) obtain n' where n: "n = Suc n'"
    and le: "sum_list (map (\<lambda>kv. Suc (need (snd kv))) kvs) \<le> n'"
    using fuel_split [of _ n] by auto
  from 6(2) have wf: "fromEntries kvs = kvs" by simp
  let ?f = "\<lambda>kv. QuoteJSONString (fst kv) @ '':'' @ print_json (snd kv)"
  show ?case
  proof (cases "kvs = []")
    case True
    then show ?thesis by (simp add: n is_ws_def)
  next
    case False
    then obtain kv kvs' where k: "kvs = kv # kvs'" by (cases kvs) auto
    have first: "\<exists>cs'. join '','' (map ?f kvs) @ CHR ''}'' # rest = CHR 0x22 # cs'"
      unfolding k by (cases kvs') (auto simp: QuoteJSONString_def)
    have pm: "parse_members n' (join '','' (map ?f kvs) @ CHR ''}'' # rest) = Inr (kvs, rest)"
    proof (rule parse_members_print [OF False _ le])
      fix kv m r assume "kv \<in> set kvs" "need (snd kv) \<le> m" "follow r"
      with 6(1) [of kv m r] 6(2) show "parse_value m (print_json (snd kv) @ r) = Inr (snd kv, r)"
        by simp
    qed
    from first obtain cs' where f: "join '','' (map ?f kvs) @ CHR ''}'' # rest = CHR 0x22 # cs'"
      by blast
    have "take 1 (skip_ws (join '','' (map ?f kvs) @ CHR ''}'' # rest)) \<noteq> ''}''"
      unfolding f by (simp add: is_ws_def)
    with pm wf show ?thesis
      by (simp add: n is_ws_def)
  qed
qed simp_all

lemma length_join: "sum_list (map (\<lambda>t. Suc (length t)) ts) \<le> Suc (length (join '','' ts))"
  by (induction "'',''" ts rule: join.induct) auto

lemma need_le_length: "json_tree j \<Longrightarrow> need j \<le> length (print_json j)"
proof (induction j rule: print_json.induct)
  case (3 i)
  from show_int_first [of i] show ?case by auto
next
  case (5 xs)
  have "sum_list (map (\<lambda>x. Suc (need x)) xs) \<le> sum_list (map (\<lambda>t. Suc (length t)) (map print_json xs))"
    unfolding map_map comp_def using 5 by (intro sum_list_mono) auto
  also have "\<dots> \<le> Suc (length (join '','' (map print_json xs)))" by (rule length_join)
  finally show ?case by simp
next
  case (6 kvs)
  let ?f = "\<lambda>kv. QuoteJSONString (fst kv) @ '':'' @ print_json (snd kv)"
  have ih: "\<And>kv. kv \<in> set kvs \<Longrightarrow> need (snd kv) \<le> length (print_json (snd kv))"
    using 6 by auto
  have "sum_list (map (\<lambda>kv. Suc (need (snd kv))) kvs) \<le> sum_list (map (\<lambda>t. Suc (length t)) (map ?f kvs))"
    unfolding map_map comp_def
  proof (rule sum_list_mono)
    fix kv assume "kv \<in> set kvs"
    from ih [OF this] show "Suc (need (snd kv)) \<le> Suc (length (?f kv))" by simp
  qed
  also have "\<dots> \<le> Suc (length (join '','' (map ?f kvs)))" by (rule length_join)
  finally show ?case by simp
qed (simp_all add: QuoteJSONString_def)

lemma JSON_parse_print: "json_tree j \<Longrightarrow> JSON_parse (print_json j) = Inr j"
  using parse_print [of j "Suc (length (print_json j))" "[]"] need_le_length [of j]
  by (simp add: JSON_parse_def follow_def)

section \<open>Property lists\<close>
























section \<open>The traversal of a value of the round trip\<close>
















lemma clean_ready: "clean S K kvs i p st \<Longrightarrow> ready S K kvs i p st"
  by (simp add: ready_def)











section \<open>Paths, slots and the lowered tree\<close>










section \<open>The restoration of a value of the round trip\<close>


lemma lower_untagged: "leaf v \<Longrightarrow> tag_of v = None \<Longrightarrow> lower v = v"
  by (cases v) simp_all























section \<open>C1: the round trip\<close>

text \<open>
  C1 says that \<open>deserialize\<close> of \<open>serialize v\<close> is deep-equal to \<open>v\<close> for every value
  built from the listed kinds, nested through mappings. In
  \<open>{a: {b: {t: <timestamp>}}, n: 7n}\<close> the frames of \<open>b\<close> and of \<open>a\<close> are both exhausted
  when \<open>n\<close> is visited, and one pop leaves the frame of \<open>a\<close> on top: the big integer
  is read as \<open>a.n\<close>, found absent, tagged \<open>undefined\<close> under \<open>a.n\<close> and printed as
  \<open>null\<close>. \<open>deserialize\<close> then gives \<open>{a: {b: {t: <timestamp>}, n: undefined}, n: null}\<close>.
  A root big integer is tagged under the empty path; \<open>deserialize\<close> reads the property
  with the empty name of the parsed text \<open>5\<close>, finds \<open>undefined\<close>, and \<open>BigInt\<close> of it
  throws.
\<close>

theorem round_trip_loses_sibling:
  \<open>serialize (Obj [(''a'', Obj [(''b'', Obj [(''t'', Date ''2024-01-01T00:00:00.000Z'')])]),
                   (''n'', BigInt 7)]) =
      Inr \<lparr>json = Str ''{"a":{"b":{"t":"2024-01-01T00:00:00.000Z"}},"n":null}'',
           meta = Obj [(''a.b.t'', Str ''date''), (''a.n'', Str ''undefined'')]\<rparr>
   \<and> deserialize (Str ''{"a":{"b":{"t":"2024-01-01T00:00:00.000Z"}},"n":null}'')
         (Obj [(''a.b.t'', Str ''date''), (''a.n'', Str ''undefined'')]) =
      Inr (Obj [(''a'', Obj [(''b'', Obj [(''t'', Date ''2024-01-01T00:00:00.000Z'')]),
                             (''n'', Undefined)]),
                (''n'', Null)])
   \<and> serialize (BigInt 5) = Inr \<lparr>json = Str ''"5"'', meta = Obj [([], Str ''bigint'')]\<rparr>
   \<and> deserialize (Str ''"5"'') (Obj [([], Str ''bigint'')]) = Inl TypeError\<close>
  by code_simp

section \<open>C2: one pop per call and the owning frame\<close>

text \<open>
  C2 says that between two consecutive calls of the replacer at most one frame becomes
  exhausted, so that one pop per call leaves on top the frame of the container that owns
  the visited key. In \<open>{a: {b: {c: 1}}, d: 1}\<close> the frames of \<open>b\<close> and of \<open>a\<close> are both
  exhausted when \<open>d\<close> is visited. The call pops the frame of \<open>b\<close> only and charges the
  visit to the frame of \<open>a\<close>, whose container does not own \<open>d\<close>: the value is read as
  \<open>a.d\<close>, found absent, tagged \<open>undefined\<close> and printed as \<open>null\<close>.
\<close>

theorem two_frames_close_before_d:
  "(case visits [([], nested3), (''a'', Obj [(''b'', Obj [(''c'', Num 1)])]),
                 (''b'', Obj [(''c'', Num 1)]), (''c'', Num 1)]
           \<lparr>stack = [], keys = [[]], meta_map = []\<rparr> of
      Inl e \<Rightarrow> False
    | Inr st \<Rightarrow>
        map entry_value (stack st) =
          [nested3, Obj [(''b'', Obj [(''c'', Num 1)])], Obj [(''c'', Num 1)]]
        \<and> map iteration (stack st) = [1, 1, 1] \<and> map count (stack st) = [2, 1, 1]
        \<and> (case owning_entry st of
              Inr (Some e, st') \<Rightarrow>
                entry_value e = Obj [(''b'', Obj [(''c'', Num 1)])] \<and> iteration e = 2
                \<and> count e = 1 \<and> length (stack st') = 2
            | _ \<Rightarrow> False)
        \<and> (case replacer ''d'' (Num 1) st of
              Inr (v', st') \<Rightarrow> v' = Null \<and> meta_map st' = [(''a.d'', ''undefined'')]
            | _ \<Rightarrow> False))"
  unfolding nested3_def by code_simp

section \<open>C3: the tag map spliced into a mapping\<close>

text \<open>
  C3 says that for a value whose text starts with \<open>{\<close> and whose tag map is not empty,
  \<open>stringify\<close> returns that text with a \<open>__meta__\<close> key spliced in immediately before
  the closing brace, and that the result parses. The code cuts two characters off the
  text, not one: for \<open>{when: <timestamp>}\<close> the closing quote of the timestamp goes
  with the brace, and the result does not parse.
\<close>

theorem stringify_mapping_cuts_two:
  \<open>serialize (Obj [(''when'', Date ''2024-01-01T00:00:00.000Z'')]) =
      Inr \<lparr>json = Str ''{"when":"2024-01-01T00:00:00.000Z"}'',
           meta = Obj [(''when'', Str ''date'')]\<rparr>
   \<and> stringify (Obj [(''when'', Date ''2024-01-01T00:00:00.000Z'')]) =
      Inr (Str ''{"when":"2024-01-01T00:00:00.000Z,"__meta__":{"when":"date"}}'')
   \<and> JSON_parse ''{"when":"2024-01-01T00:00:00.000Z,"__meta__":{"when":"date"}}'' =
      Inl SyntaxError\<close>
  by code_simp

section \<open>C4: the framed payload read back\<close>

text \<open>
  C4 says that \<open>parse (stringify v)\<close> is deep-equal to \<open>v\<close> for a value that lowers to
  a mapping or a sequence and needs a tag, the payload of a sequence being a mapping
  with the two keys \<open>__json__\<close> and \<open>__meta__\<close>. For the sequence \<open>[1, 2, NaN]\<close> the
  code writes a second quote after the \<open>__json__\<close> key, and for the mapping
  \<open>{when: <timestamp>}\<close> it cuts two characters: neither payload parses.
\<close>

theorem parse_of_stringify_throws:
  \<open>stringify (Arr [Num 1, Num 2, NaN]) =
      Inr (Str ''{"__json__"":[1,2,"NaN"],"__meta__":{"2":"nan"}}'')
   \<and> parse ''{"__json__"":[1,2,"NaN"],"__meta__":{"2":"nan"}}'' = Inl SyntaxError
   \<and> parse ''{"when":"2024-01-01T00:00:00.000Z,"__meta__":{"when":"date"}}'' =
      Inl SyntaxError\<close>
  by code_simp

section \<open>C5: empty collections\<close>




section \<open>C6: values with no extended kind\<close>

text \<open>
  C6 says that for a value of null, booleans, finite numbers, text, sequences and plain
  mappings only, \<open>serialize\<close> gives an empty tag map and the text the print primitive
  gives with no replacer. For \<open>{a: {b: {c: 1}}, d: 1}\<close> the code gives a tag map with
  one entry and prints \<open>d\<close> as \<open>null\<close>.
\<close>

theorem serialize_plain_nested_differs:
  \<open>serialize nested3 =
      Inr \<lparr>json = Str ''{"a":{"b":{"c":1}},"d":null}'',
           meta = Obj [(''a.d'', Str ''undefined'')]\<rparr>
   \<and> JSON_stringify nested3 = Inr (Some ''{"a":{"b":{"c":1}},"d":1}'')\<close>
  unfolding nested3_def by code_simp

section \<open>C7: empty or absent text\<close>

text \<open>
  C7 says that \<open>deserialize\<close> of an empty or absent text is the absent marker
  \<open>undefined\<close>. Line 125 returns \<open>null\<close>.
\<close>

theorem deserialize_empty_counterexample:
  "deserialize (Str []) Undefined = Inr Null \<and> Inr Null \<noteq> (Inr Undefined :: error + jsval)"
  by code_simp

text \<open>
  C7, amended: for an empty text, an absent text and a null text, \<open>deserialize\<close>
  returns \<open>null\<close>, whatever the tag map.
\<close>

theorem deserialize_empty_null:
  "deserialize (Str []) m = Inr Null \<and> deserialize Undefined m = Inr Null
   \<and> deserialize Null m = Inr Null"
  by (simp add: deserialize_def truthy_def)

theorem deserialize_empty_null_witness:
  "deserialize (Str []) (Obj [(''a'', Str ''date'')]) = Inr Null
   \<and> deserialize Undefined (Obj [(''a'', Str ''date'')]) = Inr Null
   \<and> deserialize Null (Obj [(''a'', Str ''date'')]) = Inr Null"
  using deserialize_empty_null [of "Obj [(''a'', Str ''date'')]"] by simp

section \<open>C10: a payload that parses to null\<close>

text \<open>
  C10: for every payload text whose parsed value is null, \<open>parse\<close> throws, because it
  reads a property of the parsed value before anything else; the text \<open>null\<close> that
  \<open>stringify\<close> returns for null is such a payload.
\<close>

theorem parse_null_throws:
  "(JSON_parse text = Inr Null \<longrightarrow> parse text = Inl TypeError)
   \<and> stringify Null = Inr (Str ''null'') \<and> parse ''null'' = Inl TypeError"
proof -
  have a: "JSON_parse text = Inr Null \<longrightarrow> parse text = Inl TypeError"
    by (simp add: parse_def get_prop_def)
  have b: "stringify Null = Inr (Str ''null'')"
    by (simp add: stringify_def serialize_def truthy_def)
  have c: "JSON_parse ''null'' = Inr Null"
    by code_simp
  from a b c show ?thesis
    by (simp add: parse_def get_prop_def)
qed

theorem parse_null_throws_witness:
  "JSON_parse '' null '' = Inr Null \<and> parse '' null '' = Inl TypeError"
proof -
  have h: "JSON_parse '' null '' = Inr Null"
    by code_simp
  with parse_null_throws [of "'' null ''"] show ?thesis
    by simp
qed

section \<open>C9: a root that lowers to neither a mapping nor a sequence\<close>

text \<open>
  C9 says that for every value whose text from \<open>serialize\<close> starts with neither \<open>{\<close>
  nor \<open>[\<close>, \<open>stringify\<close> returns the text unchanged and discards the non-empty tag
  map, so that \<open>parse\<close> of the result is a text stand-in and not the value, a root
  timestamp being one of the examples. The root number \<open>5\<close> is such a value: its tag
  map is empty and \<open>parse\<close> of the result is the number itself. For a root timestamp
  no tag is recorded either: the print primitive lowers it before the replacer sees it.
\<close>

theorem stringify_plain_root_counterexample:
  \<open>serialize (Num 5) = Inr \<lparr>json = Str ''5'', meta = Undefined\<rparr>
   \<and> stringify (Num 5) = Inr (Str ''5'')
   \<and> parse ''5'' = Inr (Num 5)
   \<and> serialize (Date ''2024-01-01T00:00:00.000Z'') =
       Inr \<lparr>json = Str ''"2024-01-01T00:00:00.000Z"'', meta = Undefined\<rparr>\<close>
  by code_simp

text \<open>
  C9, amended: for every value whose text from \<open>serialize\<close> starts with neither \<open>{\<close>
  nor \<open>[\<close>, \<open>stringify\<close> returns that text unchanged. If the tag map is not empty (a
  root pattern object, big integer or non-finite number) or the value is a timestamp,
  the text is a quoted one and \<open>parse\<close> of it is the text stand-in and not the value.
  Otherwise the tag map is empty, and either the value is null or an invalid timestamp,
  the text is \<open>null\<close> and \<open>parse\<close> throws, or the value is a boolean, a finite
  number or a text and \<open>parse\<close> gives it back.
\<close>

theorem stringify_other_root:
  assumes "serialize v = Inr r" and "json r = Str t"
    and "take 1 t \<noteq> ''{''" and "take 1 t \<noteq> ''[''"
  shows "stringify v = Inr (Str t)
    \<and> (if meta r \<noteq> Undefined \<or> (\<exists>d. v = Date d)
       then \<exists>s. t = QuoteJSONString s \<and> parse t = Inr (Str s) \<and> Str s \<noteq> v
       else if v = Null \<or> v = InvalidDate then t = ''null'' \<and> parse t = Inl TypeError
       else parse t = Inr v \<and> ((\<exists>b. v = Bool b) \<or> (\<exists>i. v = Num i) \<or> (\<exists>s. v = Str s)))"
proof -
  have one: "stringify v = Inr (Str t)"
    using assms by (simp add: stringify_def)
  have pn: "parse ''null'' = Inl TypeError"
    by code_simp
  have pb: "parse ''true'' = Inr (Bool True)" "parse ''false'' = Inr (Bool False)"
    by code_simp+
  have two: "if meta r \<noteq> Undefined \<or> (\<exists>d. v = Date d)
       then \<exists>s. t = QuoteJSONString s \<and> parse t = Inr (Str s) \<and> Str s \<noteq> v
       else if v = Null \<or> v = InvalidDate then t = ''null'' \<and> parse t = Inl TypeError
       else parse t = Inr v \<and> ((\<exists>b. v = Bool b) \<or> (\<exists>i. v = Num i) \<or> (\<exists>s. v = Str s))"
  proof (cases v)
    case Null with assms pn show ?thesis by (auto simp: serialize_def)
  next
    case Undefined with assms show ?thesis by (auto simp: serialize_def)
  next
    case (Bool b) with assms pb show ?thesis by (auto simp: serialize_Bool)
  next
    case (Num i)
    show ?thesis
    proof (cases "safe i")
      case True
      then have "JSON_parse (show_int i) = Inr (Num i)"
        using JSON_parse_print [of "Num i"] by simp
      then have "parse (show_int i) = Inr (Num i)"
        by (simp add: parse_def get_prop_def truthy_def)
      with Num True assms show ?thesis by (auto simp: serialize_Num)
    next
      case False
      with Num assms show ?thesis by (simp add: serialize_Num_unsafe)
    qed
  next
    case PosInf with assms show ?thesis by (auto simp: serialize_PosInf parse_quoted)
  next
    case NegInf with assms show ?thesis by (auto simp: serialize_NegInf parse_quoted)
  next
    case NaN with assms show ?thesis by (auto simp: serialize_NaN parse_quoted)
  next
    case (Str s) with assms show ?thesis by (auto simp: serialize_Str parse_quoted)
  next
    case (BigInt i) with assms show ?thesis by (auto simp: serialize_BigInt parse_quoted)
  next
    case (Arr xs) with assms serialize_Arr_text [of xs r] show ?thesis by auto
  next
    case (Obj kvs) with assms serialize_Obj_text [of kvs r] show ?thesis by auto
  next
    case (Date d) with assms show ?thesis by (auto simp: serialize_Date parse_quoted)
  next
    case InvalidDate with assms pn show ?thesis by (auto simp: serialize_InvalidDate)
  next
    case (SetV xs) with assms serialize_SetV_text [of xs r] show ?thesis by auto
  next
    case (MapV kvs) with assms serialize_MapV_text [of kvs r] show ?thesis by auto
  next
    case (RegExp src fl) with assms show ?thesis by (auto simp: serialize_RegExp parse_quoted)
  next
    case (Err n ms s) with assms serialize_Err_text [of n ms s r] show ?thesis by auto
  qed
  from one two show ?thesis by blast
qed

theorem stringify_other_root_witness:
  "stringify (BigInt 5) = Inr (Str (QuoteJSONString ''5''))
   \<and> (\<exists>s. parse (QuoteJSONString ''5'') = Inr (Str s) \<and> Str s \<noteq> BigInt 5)"
proof -
  have a: "serialize (BigInt 5) = Inr \<lparr>json = Str (QuoteJSONString ''5''), meta = Obj [([], Str ''bigint'')]\<rparr>"
    by code_simp
  have b: "take 1 (QuoteJSONString ''5'') \<noteq> ''{''" "take 1 (QuoteJSONString ''5'') \<noteq> ''[''"
    by (simp_all add: QuoteJSONString_def)
  from stringify_other_root [OF a _ b] show ?thesis
    by auto
qed

section \<open>C8: when deserialize raises\<close>

text \<open>
  C8 says that \<open>deserialize\<close> raises if and only if some entry of the tag map has the
  pattern tag and the text stored at its path does not match the delimited form, and
  that no other tag raises on the output of a matching \<open>serialize\<close>. For
  \<open>{"a.b": NaN}\<close> the tag map of \<open>serialize\<close> is \<open>{"a.b": "nan"}\<close>; the path is split
  at the period, the walk reads the absent property \<open>a\<close> and then a property of
  \<open>undefined\<close>, which throws a \<open>TypeError\<close>. There is no pattern tag in that map.
\<close>

theorem deserialize_throws_without_pattern_counterexample:
  \<open>serialize (Obj [(''a.b'', NaN)]) =
      Inr \<lparr>json = Str ''{"a.b":"NaN"}'', meta = Obj [(''a.b'', Str ''nan'')]\<rparr>
   \<and> deserialize (Str ''{"a.b":"NaN"}'') (Obj [(''a.b'', Str ''nan'')]) = Inl TypeError\<close>
  by code_simp

text \<open>
  C8, amended to the format error of line 161, the one error of \<open>deserialize\<close> that
  is its own. \<open>deserialize\<close> raises it with the message \<open>msg\<close> if and only if the text
  is not empty and parses, the tag map is truthy and has keys, and some key of the tag
  map, at any place among them, has the pattern tag, the entries before it have been
  restored without an error, and the value then found at its path (of any depth) has a
  text that does not match the delimited form, \<open>msg\<close> naming that text. So it is for
  the stored text \<open>not-a-pattern\<close>, alone, after another entry and under a nested
  path. Errors of other kinds are not excluded.
\<close>

theorem format_error_iff_unmatched_pattern:
  \<open>(deserialize js m = Inl (FormatError msg) \<longleftrightarrow>
      (\<exists>s result ks pre k post cur t.
          js = Str s \<and> s \<noteq> [] \<and> JSON_parse s = Inr result \<and> truthy m
          \<and> Object_keys m = Inr ks \<and> ks = pre @ k # post
          \<and> apply_meta m pre result = Inr cur
          \<and> get_prop m k = Inr (Str ''regexp'')
          \<and> unmatched_text cur k = Some t
          \<and> msg = ''Invalid regexp: '' @ t))
   \<and> deserialize (Str ''{"r":"not-a-pattern"}'') (Obj [(''r'', Str ''regexp'')])
        = Inl (FormatError ''Invalid regexp: not-a-pattern'')
   \<and> deserialize (Str ''{"a":"x","r":"not-a-pattern"}'')
          (Obj [(''a'', Str ''nan''), (''r'', Str ''regexp'')])
        = Inl (FormatError ''Invalid regexp: not-a-pattern'')
   \<and> deserialize (Str ''{"a":{"r":"not-a-pattern"}}'') (Obj [(''a.r'', Str ''regexp'')])
        = Inl (FormatError ''Invalid regexp: not-a-pattern'')\<close>
proof -
  have a: "deserialize js m = Inl (FormatError msg) \<longleftrightarrow>
      (\<exists>s result ks pre k post cur t.
          js = Str s \<and> s \<noteq> [] \<and> JSON_parse s = Inr result \<and> truthy m
          \<and> Object_keys m = Inr ks \<and> ks = pre @ k # post
          \<and> apply_meta m pre result = Inr cur
          \<and> get_prop m k = Inr (Str ''regexp'')
          \<and> unmatched_text cur k = Some t
          \<and> msg = ''Invalid regexp: '' @ t)"
  proof (cases "\<exists>s. js = Str s")
    case True
    then obtain s where js: "js = Str s" by blast
    show ?thesis
      unfolding js deserialize_format apply_meta_format
      by (simp only: jsval.inject) blast
  next
    case False
    then have "deserialize js m \<noteq> Inl (FormatError msg)"
      by (cases js) (simp_all add: deserialize_def)
    with False show ?thesis by blast
  qed
  have b: \<open>deserialize (Str ''{"r":"not-a-pattern"}'') (Obj [(''r'', Str ''regexp'')])
        = Inl (FormatError ''Invalid regexp: not-a-pattern'')\<close>
    by code_simp
  have c: \<open>deserialize (Str ''{"a":"x","r":"not-a-pattern"}'')
          (Obj [(''a'', Str ''nan''), (''r'', Str ''regexp'')])
        = Inl (FormatError ''Invalid regexp: not-a-pattern'')\<close>
    by code_simp
  have d: \<open>deserialize (Str ''{"a":{"r":"not-a-pattern"}}'') (Obj [(''a.r'', Str ''regexp'')])
        = Inl (FormatError ''Invalid regexp: not-a-pattern'')\<close>
    by code_simp
  from a b c d show ?thesis
    by blast
qed

theorem format_error_iff_unmatched_pattern_witness:
  \<open>deserialize (Str ''{"a":"x","p":"/a"}'') (Obj [(''a'', Str ''nan''), (''p'', Str ''regexp'')])
      = Inl (FormatError ''Invalid regexp: /a'')
   \<and> apply_meta (Obj [(''a'', Str ''nan''), (''p'', Str ''regexp'')]) [''a'']
         (Obj [(''a'', Str ''x''), (''p'', Str ''/a'')])
       = Inr (Obj [(''a'', NaN), (''p'', Str ''/a'')])
   \<and> unmatched_text (Obj [(''a'', NaN), (''p'', Str ''/a'')]) ''p'' = Some ''/a''\<close>
proof -
  have h1: \<open>JSON_parse ''{"a":"x","p":"/a"}'' = Inr (Obj [(''a'', Str ''x''), (''p'', Str ''/a'')])\<close>
    by code_simp
  have h2: "Object_keys (Obj [(''a'', Str ''nan''), (''p'', Str ''regexp'')]) = Inr ([''a''] @ ''p'' # [])"
    by code_simp
  have h3: "apply_meta (Obj [(''a'', Str ''nan''), (''p'', Str ''regexp'')]) [''a'']
         (Obj [(''a'', Str ''x''), (''p'', Str ''/a'')])
       = Inr (Obj [(''a'', NaN), (''p'', Str ''/a'')])"
    by code_simp
  have h4: "get_prop (Obj [(''a'', Str ''nan''), (''p'', Str ''regexp'')]) ''p'' = Inr (Str ''regexp'')"
    by code_simp
  have h5: "unmatched_text (Obj [(''a'', NaN), (''p'', Str ''/a'')]) ''p'' = Some ''/a''"
    by code_simp
  have h6: "truthy (Obj [(''a'', Str ''nan''), (''p'', Str ''regexp'')])"
    by code_simp
  have \<open>\<exists>s result ks pre k post cur t.
          Str ''{"a":"x","p":"/a"}'' = Str s \<and> s \<noteq> [] \<and> JSON_parse s = Inr result
          \<and> truthy (Obj [(''a'', Str ''nan''), (''p'', Str ''regexp'')])
          \<and> Object_keys (Obj [(''a'', Str ''nan''), (''p'', Str ''regexp'')]) = Inr ks
          \<and> ks = pre @ k # post
          \<and> apply_meta (Obj [(''a'', Str ''nan''), (''p'', Str ''regexp'')]) pre result = Inr cur
          \<and> get_prop (Obj [(''a'', Str ''nan''), (''p'', Str ''regexp'')]) k = Inr (Str ''regexp'')
          \<and> unmatched_text cur k = Some t
          \<and> ''Invalid regexp: /a'' = ''Invalid regexp: '' @ t\<close>
    using h1 h2 h3 h4 h5 h6 by (intro exI [of _ "''/a''"] exI conjI) (simp_all (no_asm_simp))
  with format_error_iff_unmatched_pattern
    [of \<open>Str ''{"a":"x","p":"/a"}''\<close> "Obj [(''a'', Str ''nan''), (''p'', Str ''regexp'')]"
      "''Invalid regexp: /a''"]
    h3 h5
  show ?thesis
    by blast
qed

end
